theory Spec2Isabelle
  imports Complex_Main "HOL-Library.Sublist"
begin

section \<open>JavaScript values\<close>

text \<open>
  A JavaScript string is the list of its UTF-16 code units, so that equality, \<^verbatim>\<open>includes\<close>
  and the white space \<^verbatim>\<open>parseInt\<close> skips are what they are in the language. \<open>lit\<close> turns
  an ASCII literal of the source into such a string.
\<close>

type_synonym jstr = "nat list"

definition lit :: "string \<Rightarrow> jstr" where
  "lit s = map of_char s"

text \<open>
  A value \<^verbatim>\<open>JSON.parse\<close> can produce, or \<^verbatim>\<open>undefined\<close>. A number is the value of the
  double the parser produced: a rational (\<open>JNum\<close>), or an infinity when the literal
  overflows. The handlers only test a number for truthiness and compare it with zero.
  An object is the list of its own keys with their values.
\<close>

datatype jsval =
    JUndefined
  | JNull
  | JBool bool
  | JNum rat
  | JPosInf
  | JNegInf
  | JStr jstr
  | JArr "jsval list"
  | JObj "(jstr \<times> jsval) list"

text \<open>\<^verbatim>\<open>!!v\<close>: the values JavaScript treats as false are \<^verbatim>\<open>undefined\<close>, \<^verbatim>\<open>null\<close>,
  \<^verbatim>\<open>false\<close>, \<^verbatim>\<open>0\<close> and the empty string.\<close>

fun truthy :: "jsval \<Rightarrow> bool" where
  "truthy JUndefined = False"
| "truthy JNull = False"
| "truthy (JBool b) = b"
| "truthy (JNum n) = (n \<noteq> 0)"
| "truthy JPosInf = True"
| "truthy JNegInf = True"
| "truthy (JStr s) = (s \<noteq> [])"
| "truthy (JArr _) = True"
| "truthy (JObj _) = True"

text \<open>\<^verbatim>\<open>a || b\<close>\<close>

definition js_or :: "jsval \<Rightarrow> jsval \<Rightarrow> jsval" where
  "js_or a b = (if truthy a then a else b)"

text \<open>\<^verbatim>\<open>v === undefined || v === null\<close>: the two values no property can be read from.\<close>

definition nullish :: "jsval \<Rightarrow> bool" where
  "nullish v = (v = JUndefined \<or> v = JNull)"

text \<open>
  \<^verbatim>\<open>v.k\<close> for a value that is not nullish and a key \<open>k\<close> that no prototype defines
  (the handlers read \<^verbatim>\<open>name\<close>, \<^verbatim>\<open>description\<close>, \<^verbatim>\<open>price\<close>, \<^verbatim>\<open>category\<close> and
  \<^verbatim>\<open>inStock\<close>): the own property of an object, and \<^verbatim>\<open>undefined\<close> when the key is
  absent or the value is an array or a primitive.
\<close>

definition field :: "jsval \<Rightarrow> string \<Rightarrow> jsval" where
  "field v k =
     (case v of
        JObj kvs \<Rightarrow> (case map_of kvs (lit k) of None \<Rightarrow> JUndefined | Some x \<Rightarrow> x)
      | _ \<Rightarrow> JUndefined)"

subsection \<open>Strings\<close>

text \<open>An upper-case ASCII letter \<open>A .. Z\<close> (code units 65 to 90) becomes lower case by
  adding 32.\<close>

definition ascii_lower :: "nat \<Rightarrow> nat" where
  "ascii_lower c = (if 65 \<le> c \<and> c \<le> 90 then c + 32 else c)"

text \<open>\<^verbatim>\<open>s.includes(t)\<close>: \<open>t\<close> occurs in \<open>s\<close> as a contiguous run of code units.\<close>

fun includes_str :: "jstr \<Rightarrow> jstr \<Rightarrow> bool" where
  "includes_str [] t = (t = [])"
| "includes_str (c # cs) t = (prefix t (c # cs) \<or> includes_str cs t)"

subsection \<open>parseInt, Array.prototype.slice, Math.ceil\<close>

text \<open>
  \<^verbatim>\<open>parseInt(s)\<close> with no radix: leading white space is skipped, then an optional sign,
  then an optional \<^verbatim>\<open>0x\<close>/\<^verbatim>\<open>0X\<close> (which switches to base 16), then the longest run of
  digits of the base; whatever follows is ignored. With no digit the result is
  \<^verbatim>\<open>NaN\<close>, here \<open>None\<close>. \<open>is_space\<close> is the white space and the line terminators of
  ECMAScript: TAB, LF, VT, FF, CR, the space, U+00A0, U+1680, U+2000 to U+200A, U+2028,
  U+2029, U+202F, U+205F, U+3000 and U+FEFF. The result here is the integer the digits
  denote; JavaScript returns the double nearest to it, which is that integer as long as
  its magnitude is at most \<open>2^53 - 1\<close> (see \<open>safe_int\<close>).
\<close>

definition is_space :: "nat \<Rightarrow> bool" where
  "is_space c =
     (c \<in> {9, 10, 11, 12, 13, 32, 160, 5760, 8232, 8233, 8239, 8287, 12288, 65279}
      \<or> (8192 \<le> c \<and> c \<le> 8202))"

definition digit_val :: "nat \<Rightarrow> nat option" where
  "digit_val c =
     (if 48 \<le> c \<and> c \<le> 57 then Some (c - 48)
      else if 97 \<le> c \<and> c \<le> 102 then Some (c - 87)
      else if 65 \<le> c \<and> c \<le> 70 then Some (c - 55)
      else None)"

definition is_digit :: "nat \<Rightarrow> nat \<Rightarrow> bool" where
  "is_digit radix c = (case digit_val c of None \<Rightarrow> False | Some d \<Rightarrow> d < radix)"

definition digits_val :: "nat \<Rightarrow> jstr \<Rightarrow> nat" where
  "digits_val radix ds =
     foldl (\<lambda>acc c. acc * radix + (case digit_val c of None \<Rightarrow> 0 | Some d \<Rightarrow> d)) 0 ds"

definition parse_digits :: "nat \<Rightarrow> jstr \<Rightarrow> nat option" where
  "parse_digits radix s =
     (let ds = takeWhile (is_digit radix) s in
      if ds = [] then None else Some (digits_val radix ds))"

definition parseInt :: "jstr \<Rightarrow> int option" where
  "parseInt s =
     (let s1 = dropWhile is_space s;
          neg = (case s1 of c # _ \<Rightarrow> c = 45 | [] \<Rightarrow> False);
          s2 = (case s1 of c # cs \<Rightarrow> if c = 43 \<or> c = 45 then cs else s1 | [] \<Rightarrow> s1);
          hex = (take 2 s2 = lit ''0x'' \<or> take 2 s2 = lit ''0X'');
          r = (if hex then parse_digits 16 (drop 2 s2) else parse_digits 10 s2)
      in case r of None \<Rightarrow> None
         | Some n \<Rightarrow> Some (if neg then - int n else int n))"

text \<open>\<^verbatim>\<open>v || d\<close> for the result of \<^verbatim>\<open>parseInt\<close>: \<^verbatim>\<open>NaN\<close> and \<open>0\<close> are falsy.\<close>

definition int_or :: "int option \<Rightarrow> int \<Rightarrow> int" where
  "int_or v d = (case v of None \<Rightarrow> d | Some n \<Rightarrow> if n = 0 then d else n)"

text \<open>An integer every double arithmetic step on which is exact:
  \<^verbatim>\<open>Number.isSafeInteger\<close>.\<close>

definition safe_int :: "int \<Rightarrow> bool" where
  "safe_int n = (- 9007199254740991 \<le> n \<and> n \<le> 9007199254740991)"

text \<open>
  \<^verbatim>\<open>xs.slice(start, end)\<close>: a negative index counts from the end of the array, and both
  indices are clamped to \<open>0 .. length xs\<close>.
\<close>

definition rel_index :: "nat \<Rightarrow> int \<Rightarrow> nat" where
  "rel_index len i = (if i < 0 then nat (max (int len + i) 0) else min (nat i) len)"

definition slice :: "'a list \<Rightarrow> int \<Rightarrow> int \<Rightarrow> 'a list" where
  "slice xs start fin =
     (let k = rel_index (length xs) start; f = rel_index (length xs) fin
      in take (f - k) (drop k xs))"

text \<open>\<^verbatim>\<open>Math.ceil(n / d)\<close> for an array length \<open>n\<close> and a non-zero safe integer \<open>d\<close>.\<close>

definition ceil_div :: "nat \<Rightarrow> int \<Rightarrow> int" where
  "ceil_div n d = \<lceil>(of_nat n :: rat) / of_int d\<rceil>"

section \<open>The product store\<close>

text \<open>
  A stored record. \<open>id_p\<close> is its \<^verbatim>\<open>id\<close>, always a string (a seed identifier or a
  generated one); the other five fields hold whatever values the request bodies supplied.
\<close>

record product =
  id_p :: jstr
  name :: jsval
  description :: jsval
  price :: jsval
  category :: jsval
  inStock :: jsval

definition laptop :: product where
  "laptop = \<lparr>id_p = lit ''1'', name = JStr (lit ''Laptop''),
     description = JStr (lit ''High-performance laptop''), price = JNum 999.99,
     category = JStr (lit ''Electronics''), inStock = JBool True\<rparr>"

definition desk_chair :: product where
  "desk_chair = \<lparr>id_p = lit ''2'', name = JStr (lit ''Desk Chair''),
     description = JStr (lit ''Ergonomic office chair''), price = JNum 199.99,
     category = JStr (lit ''Furniture''), inStock = JBool True\<rparr>"

text \<open>The initial value of \<^verbatim>\<open>products\<close>.\<close>

definition products0 :: "product list" where
  "products0 = [laptop, desk_chair]"

text \<open>\<^verbatim>\<open>xs.findIndex(P)\<close>: the first index whose element satisfies \<open>P\<close>, or \<open>-1\<close>.\<close>

fun findIndex :: "('a \<Rightarrow> bool) \<Rightarrow> 'a list \<Rightarrow> int" where
  "findIndex P [] = - 1"
| "findIndex P (x # xs) =
     (if P x then 0 else (let i = findIndex P xs in if i = - 1 then - 1 else i + 1))"

section \<open>Errors\<close>

text \<open>
  A thrown error as the error-handling middleware reads it: \<^verbatim>\<open>err.message\<close>,
  \<^verbatim>\<open>err.name\<close> and \<^verbatim>\<open>err.statusCode\<close> (\<open>None\<close> when the property is not set).
  The three classes the file declares set all three; a \<^verbatim>\<open>TypeError\<close> raised by the
  runtime has the name \<^verbatim>\<open>TypeError\<close> and no status code.
\<close>

record error =
  message :: jstr
  err_name :: jstr
  statusCode :: "nat option"

definition NotFoundError :: "string \<Rightarrow> error" where
  "NotFoundError msg =
     \<lparr>message = lit msg, err_name = lit ''NotFoundError'', statusCode = Some 404\<rparr>"

definition ValidationError :: "string \<Rightarrow> error" where
  "ValidationError msg =
     \<lparr>message = lit msg, err_name = lit ''ValidationError'', statusCode = Some 400\<rparr>"

definition UnauthorizedError :: "string \<Rightarrow> error" where
  "UnauthorizedError msg =
     \<lparr>message = lit msg, err_name = lit ''UnauthorizedError'', statusCode = Some 401\<rparr>"

definition TypeError :: "string \<Rightarrow> error" where
  "TypeError msg = \<lparr>message = lit msg, err_name = lit ''TypeError'', statusCode = None\<rparr>"

text \<open>The \<^verbatim>\<open>TypeError\<close> of reading the property \<open>k\<close> of \<^verbatim>\<open>undefined\<close> or \<^verbatim>\<open>null\<close>
  (the wording is V8's).\<close>

definition cannot_read :: "jsval \<Rightarrow> string \<Rightarrow> error" where
  "cannot_read v k =
     TypeError (''Cannot read properties of ''
       @ (if v = JNull then ''null'' else ''undefined'')
       @ '' (reading '' @ [CHR 0x27] @ k @ [CHR 0x27] @ '')'')"

section \<open>Requests, responses and middleware\<close>

text \<open>
  What the file takes from outside: \<^verbatim>\<open>process.env.API_KEY\<close> (\<open>None\<close> when the variable is
  unset), the identifier \<^verbatim>\<open>uuidv4()\<close> returns while this request is served, and two
  functions of the runtime where they are not elementary: \<^verbatim>\<open>String.prototype.toLowerCase\<close>
  on a string with a code unit outside ASCII, and \<^verbatim>\<open>decodeURIComponent\<close> on a string with
  a percent sign (\<open>None\<close> when it throws \<^verbatim>\<open>URIError\<close>). Nothing is assumed about either.
\<close>

record env =
  API_KEY :: "jstr option"
  uuidv4 :: jstr
  unicode_lower :: "jstr \<Rightarrow> jstr"
  decode_escapes :: "jstr \<Rightarrow> jstr option"

text \<open>\<^verbatim>\<open>s.toLowerCase()\<close>: on an ASCII string, the letters \<open>A .. Z\<close> are lowered.\<close>

definition toLowerCase :: "env \<Rightarrow> jstr \<Rightarrow> jstr" where
  "toLowerCase e s =
     (if list_all (\<lambda>c. c < 128) s then map ascii_lower s else unicode_lower e s)"

text \<open>\<^verbatim>\<open>decodeURIComponent(s)\<close>: a string without a percent sign (code unit 37) is returned
  as it is.\<close>

definition decodeURIComponent :: "env \<Rightarrow> jstr \<Rightarrow> jstr option" where
  "decodeURIComponent e s = (if 37 \<in> set s then decode_escapes e s else Some s)"

text \<open>
  A value of \<^verbatim>\<open>req.query\<close>: a string, or for a repeated or bracketed parameter
  (\<^verbatim>\<open>?a=1&a=2\<close>, \<^verbatim>\<open>?a[k]=1\<close>) an array or an object of such values.
\<close>

datatype qval =
    QStr jstr
  | QArr "qval list"
  | QObj "(jstr \<times> qval) list"

text \<open>\<^verbatim>\<open>!!v\<close> for a query value that may be absent.\<close>

definition qtruthy :: "qval option \<Rightarrow> bool" where
  "qtruthy v = (case v of None \<Rightarrow> False | Some (QStr s) \<Rightarrow> s \<noteq> [] | Some _ \<Rightarrow> True)"

text \<open>\<^verbatim>\<open>v === q\<close> for a stored value and a query value: an array or object of the query is
  equal to no stored value.\<close>

definition strict_eq :: "jsval \<Rightarrow> qval \<Rightarrow> bool" where
  "strict_eq v q = (case q of QStr c \<Rightarrow> v = JStr c | _ \<Rightarrow> False)"

text \<open>
  The string conversion \<^verbatim>\<open>parseInt\<close> applies to its argument. An array is the
  conversions of its elements joined by commas. An object is \<^verbatim>\<open>[object Object]\<close>,
  unless it has an own key \<^verbatim>\<open>toString\<close> (\<^verbatim>\<open>?page[toString]=1\<close>): its value is not a
  function, \<^verbatim>\<open>valueOf\<close> does not give a primitive either, and the conversion throws.
\<close>

fun join_with :: "jstr \<Rightarrow> (error + jstr) list \<Rightarrow> error + jstr" where
  "join_with sep [] = Inr []"
| "join_with sep [x] = x"
| "join_with sep (x # y # ys) =
     (case x of
        Inl err \<Rightarrow> Inl err
      | Inr s \<Rightarrow> (case join_with sep (y # ys) of
                    Inl err \<Rightarrow> Inl err
                  | Inr t \<Rightarrow> Inr (s @ sep @ t)))"

fun qToString :: "qval \<Rightarrow> error + jstr" where
  "qToString (QStr s) = Inr s"
| "qToString (QArr xs) = join_with (lit '','') (map qToString xs)"
| "qToString (QObj kvs) =
     (if lit ''toString'' \<in> fst ` set kvs
      then Inl (TypeError ''Cannot convert object to primitive value'')
      else Inr (lit ''[object Object]''))"

text \<open>\<^verbatim>\<open>parseInt(req.query.k)\<close>; \<^verbatim>\<open>parseInt(undefined)\<close> is \<^verbatim>\<open>NaN\<close>.\<close>

definition parseInt_param :: "qval option \<Rightarrow> error + int option" where
  "parseInt_param v =
     (case v of
        None \<Rightarrow> Inr None
      | Some q \<Rightarrow> (case qToString q of Inl err \<Rightarrow> Inl err | Inr s \<Rightarrow> Inr (parseInt s)))"

text \<open>
  A request as the application's own functions see it. The path is the list of the
  segments of the request's path as sent (not yet decoded): \<^verbatim>\<open>/api/products/7\<close> and
  \<^verbatim>\<open>/api/products/7/\<close> are \<open>[api, products, 7]\<close>, \<^verbatim>\<open>/\<close> is \<open>[]\<close>. Header names are
  lower case, as Node delivers them; \<open>map_of\<close> on an absent key is \<^verbatim>\<open>undefined\<close>.
  \<open>body\<close> is what \<^verbatim>\<open>bodyParser.json()\<close> did with the request: \<open>Inl err\<close> when it
  passed the error \<open>err\<close> on (a body that is not JSON, too long, ...), and otherwise
  \<open>Inr v\<close> with \<open>v\<close> the value of \<^verbatim>\<open>req.body\<close> afterwards: the parsed object or array,
  and with no JSON body the empty object or \<^verbatim>\<open>undefined\<close>, depending on the version of
  the library. \<open>params\<close> is filled in by the router.
\<close>

datatype verb = GET | HEAD | POST | PUT | DELETE | PATCH | OPTIONS

record request =
  http_method :: verb
  path :: "jstr list"
  headers :: "(jstr \<times> jstr) list"
  query :: "(jstr \<times> qval) list"
  body :: "error + jsval"
  params :: "(string \<times> jstr) list"

text \<open>\<^verbatim>\<open>req.body\<close> (\<^verbatim>\<open>undefined\<close> if the parser failed; no handler runs then).\<close>

definition req_body :: "request \<Rightarrow> jsval" where
  "req_body req = (case body req of Inl _ \<Rightarrow> JUndefined | Inr v \<Rightarrow> v)"

text \<open>The body of a list response (\<open>total_n\<close> is its \<^verbatim>\<open>total\<close>) and of a statistics
  response (\<open>inStock_count\<close> is its \<^verbatim>\<open>inStock\<close>).\<close>

record list_page =
  total_n :: int
  page :: int
  totalPages :: int
  data :: "product list"

record stats =
  totalProducts :: nat
  categories :: "(jstr \<times> nat) list"
  inStock_count :: nat
  outOfStock :: nat

text \<open>What a response carries: the text of the root route, a JSON body of one of four
  shapes, nothing (204), the error body \<open>{error: {message, type}}\<close> as
  \<open>ErrorBody message type\<close>, the list of allowed methods Express sends for an
  \<^verbatim>\<open>OPTIONS\<close> request, or the page Express itself sends when no route answers.
  \<open>Unmodelled\<close> stands for a JSON body outside the fragment described at \<open>paginate\<close> and
  \<open>category_key\<close>.\<close>

datatype payload =
    Text jstr
  | ProductList list_page
  | Product product
  | Stats stats
  | Empty
  | ErrorBody jstr jstr
  | Allow
  | CannotRoute
  | Unmodelled

record response =
  status :: nat
  payload :: payload

text \<open>A middleware or handler either calls \<^verbatim>\<open>next()\<close>, throws (or calls \<^verbatim>\<open>next(err)\<close>),
  or sends a response; it may have changed \<^verbatim>\<open>products\<close> before any of these.\<close>

datatype outcome = Next | Throw error | Send response

type_synonym middleware = "env \<Rightarrow> request \<Rightarrow> product list \<Rightarrow> outcome \<times> product list"

text \<open>\<^verbatim>\<open>bodyParser.json()\<close>: its result is part of the request (see above).\<close>

definition jsonParser :: middleware where
  "jsonParser e req ps = (case body req of Inl err \<Rightarrow> (Throw err, ps) | Inr v \<Rightarrow> (Next, ps))"

text \<open>The logger writes a line to the console and calls \<^verbatim>\<open>next()\<close>.\<close>

definition logger :: middleware where
  "logger e req ps = (Next, ps)"

text \<open>\<^verbatim>\<open>!v\<close> for a header value: absent or the empty string.\<close>

definition falsy_str :: "jstr option \<Rightarrow> bool" where
  "falsy_str v = (case v of None \<Rightarrow> True | Some s \<Rightarrow> s = [])"

definition authenticate :: middleware where
  "authenticate e req ps =
     (let apiKey = map_of (headers req) (lit ''x-api-key'') in
      if falsy_str apiKey \<or> apiKey \<noteq> API_KEY e
      then (Throw (UnauthorizedError ''Invalid API key''), ps)
      else (Next, ps))"

text \<open>\<^verbatim>\<open>typeof v !== 'number' || v <= 0\<close>\<close>

fun not_positive_number :: "jsval \<Rightarrow> bool" where
  "not_positive_number (JNum n) = (n \<le> 0)"
| "not_positive_number JPosInf = False"
| "not_positive_number _ = True"

text \<open>\<^verbatim>\<open>product.name\<close> is the first property read: it throws when \<^verbatim>\<open>req.body\<close> is
  \<^verbatim>\<open>undefined\<close>.\<close>

definition validateProduct :: middleware where
  "validateProduct e req ps =
     (let product = req_body req in
      if nullish product then (Throw (cannot_read product ''name''), ps)
      else if \<not> truthy (field product ''name'') \<or> \<not> truthy (field product ''price'')
      then (Throw (ValidationError ''Name and price are required''), ps)
      else if not_positive_number (field product ''price'')
      then (Throw (ValidationError ''Price must be a positive number''), ps)
      else (Next, ps))"

section \<open>Handlers\<close>

definition hello :: middleware where
  "hello e req ps = (Send \<lparr>status = 200, payload = Text (lit ''Hello World!'')\<rparr>, ps)"

text \<open>
  \<^verbatim>\<open>v.toLowerCase()\<close> on a stored field: only a string has the method; on any other
  value the call throws a \<^verbatim>\<open>TypeError\<close> (the messages are V8's; \<open>expr\<close> is the source
  text of \<open>v\<close>).
\<close>

definition lower_of :: "env \<Rightarrow> string \<Rightarrow> jsval \<Rightarrow> error + jstr" where
  "lower_of e expr v =
     (case v of
        JStr s \<Rightarrow> Inr (toLowerCase e s)
      | JUndefined \<Rightarrow> Inl (cannot_read v ''toLowerCase'')
      | JNull \<Rightarrow> Inl (cannot_read v ''toLowerCase'')
      | _ \<Rightarrow> Inl (TypeError (expr @ ''.toLowerCase is not a function'')))"

text \<open>The search predicate. \<^verbatim>\<open>||\<close> evaluates its right operand only when the left one
  is false, so the description is lowercased only when the name does not match.\<close>

definition matches_search :: "env \<Rightarrow> jstr \<Rightarrow> product \<Rightarrow> error + bool" where
  "matches_search e searchTerm p =
     (case lower_of e ''p.name'' (name p) of
        Inl err \<Rightarrow> Inl err
      | Inr n \<Rightarrow>
          if includes_str n searchTerm then Inr True
          else (case lower_of e ''p.description'' (description p) of
                  Inl err \<Rightarrow> Inl err
                | Inr d \<Rightarrow> Inr (includes_str d searchTerm)))"

text \<open>\<^verbatim>\<open>xs.filter(P)\<close> for a predicate that may throw: the elements are visited in order
  and the first throw ends the loop.\<close>

fun filterE :: "('a \<Rightarrow> error + bool) \<Rightarrow> 'a list \<Rightarrow> error + 'a list" where
  "filterE P [] = Inr []"
| "filterE P (x # xs) =
     (case P x of
        Inl err \<Rightarrow> Inl err
      | Inr b \<Rightarrow>
          (case filterE P xs of
             Inl err \<Rightarrow> Inl err
           | Inr ys \<Rightarrow> Inr (if b then x # ys else ys)))"

text \<open>\<^verbatim>\<open>if (req.query.category) result = result.filter(p => p.category === req.query.category)\<close>\<close>

definition filter_category :: "qval option \<Rightarrow> product list \<Rightarrow> product list" where
  "filter_category c result =
     (case c of
        None \<Rightarrow> result
      | Some q \<Rightarrow>
          if qtruthy (Some q) then filter (\<lambda>p. strict_eq (category p) q) result
          else result)"

text \<open>\<^verbatim>\<open>if (req.query.search) { ... }\<close>: \<^verbatim>\<open>req.query.search.toLowerCase()\<close> is called
  first, and only a string has the method.\<close>

definition filter_search :: "env \<Rightarrow> qval option \<Rightarrow> product list \<Rightarrow> error + product list" where
  "filter_search e s result =
     (case s of
        None \<Rightarrow> Inr result
      | Some (QStr t) \<Rightarrow>
          if t = [] then Inr result
          else filterE (matches_search e (toLowerCase e t)) result
      | Some _ \<Rightarrow> Inl (TypeError ''req.query.search.toLowerCase is not a function''))"

definition apply_filters :: "env \<Rightarrow> request \<Rightarrow> product list \<Rightarrow> error + product list" where
  "apply_filters e req ps =
     filter_search e (map_of (query req) (lit ''search''))
       (filter_category (map_of (query req) (lit ''category'')) ps)"

text \<open>\<^verbatim>\<open>parseInt(req.query.page) || 1\<close> and \<^verbatim>\<open>parseInt(req.query.limit) || 10\<close>\<close>

definition page_of :: "request \<Rightarrow> error + int" where
  "page_of req =
     (case parseInt_param (map_of (query req) (lit ''page'')) of
        Inl err \<Rightarrow> Inl err
      | Inr v \<Rightarrow> Inr (int_or v 1))"

definition limit_of :: "request \<Rightarrow> error + int" where
  "limit_of req =
     (case parseInt_param (map_of (query req) (lit ''limit'')) of
        Inl err \<Rightarrow> Inl err
      | Inr v \<Rightarrow> Inr (int_or v 10))"

text \<open>
  The pagination and the response body. The arithmetic of the source is on doubles; it
  is the integer arithmetic written here as long as the page, the limit and the two
  indices are safe integers (the quotient \<^verbatim>\<open>result.length / limit\<close> is then rounded, but
  never across an integer, so \<^verbatim>\<open>Math.ceil\<close> gives its exact ceiling). Outside that range
  the model does not say what the body is.
\<close>

definition paginate :: "int \<Rightarrow> int \<Rightarrow> product list \<Rightarrow> payload" where
  "paginate pg lmt result =
     (let startIndex = (pg - 1) * lmt;
          endIndex = pg * lmt;
          paginatedResult = slice result startIndex endIndex
      in if safe_int pg \<and> safe_int lmt \<and> safe_int startIndex \<and> safe_int endIndex
         then ProductList \<lparr>total_n = int (length result), page = pg,
                totalPages = ceil_div (length result) lmt, data = paginatedResult\<rparr>
         else Unmodelled)"

definition getProducts :: middleware where
  "getProducts e req ps =
     (case apply_filters e req ps of
        Inl err \<Rightarrow> (Throw err, ps)
      | Inr result \<Rightarrow>
          (case page_of req of
             Inl err \<Rightarrow> (Throw err, ps)
           | Inr pg \<Rightarrow>
               (case limit_of req of
                  Inl err \<Rightarrow> (Throw err, ps)
                | Inr lmt \<Rightarrow>
                    (Send \<lparr>status = 200, payload = paginate pg lmt result\<rparr>, ps))))"

text \<open>\<^verbatim>\<open>p.id === req.params.id\<close>\<close>

definition has_id :: "request \<Rightarrow> product \<Rightarrow> bool" where
  "has_id req p = (Some (id_p p) = map_of (params req) ''id'')"

definition getProduct :: middleware where
  "getProduct e req ps =
     (case find (has_id req) ps of
        None \<Rightarrow> (Throw (NotFoundError ''Product not found''), ps)
      | Some product \<Rightarrow> (Send \<lparr>status = 200, payload = Product product\<rparr>, ps))"

text \<open>The object literal of the create handler.\<close>

definition newProduct :: "env \<Rightarrow> jsval \<Rightarrow> product" where
  "newProduct e b =
     \<lparr>id_p = uuidv4 e,
      name = field b ''name'',
      description = js_or (field b ''description'') (JStr []),
      price = field b ''price'',
      category = js_or (field b ''category'') (JStr (lit ''Uncategorized'')),
      inStock = (if field b ''inStock'' \<noteq> JUndefined then field b ''inStock'' else JBool True)\<rparr>"

definition createProduct :: middleware where
  "createProduct e req ps =
     (if nullish (req_body req) then (Throw (cannot_read (req_body req) ''name''), ps)
      else (Send \<lparr>status = 201, payload = Product (newProduct e (req_body req))\<rparr>,
            ps @ [newProduct e (req_body req)]))"

text \<open>The object literal of the update handler: the spread keeps the stored \<^verbatim>\<open>id\<close>, the
  five other keys are written over it.\<close>

definition updated :: "jsval \<Rightarrow> product \<Rightarrow> product" where
  "updated b old =
     old\<lparr>name := field b ''name'',
         description := js_or (field b ''description'') (description old),
         price := field b ''price'',
         category := js_or (field b ''category'') (category old),
         inStock := (if field b ''inStock'' \<noteq> JUndefined then field b ''inStock''
                     else inStock old)\<rparr>"

definition updateProduct :: middleware where
  "updateProduct e req ps =
     (let index = findIndex (has_id req) ps in
      if index = - 1 then (Throw (NotFoundError ''Product not found''), ps)
      else if nullish (req_body req) then (Throw (cannot_read (req_body req) ''name''), ps)
      else (Send \<lparr>status = 200,
                  payload = Product (updated (req_body req) (ps ! nat index))\<rparr>,
            ps[nat index := updated (req_body req) (ps ! nat index)]))"

definition deleteProduct :: middleware where
  "deleteProduct e req ps =
     (let index = findIndex (has_id req) ps in
      if index = - 1 then (Throw (NotFoundError ''Product not found''), ps)
      else (Send \<lparr>status = 204, payload = Empty\<rparr>, filter (\<lambda>p. \<not> has_id req p) ps))"

subsection \<open>Statistics\<close>

text \<open>
  \<^verbatim>\<open>stats.categories[product.category] = (stats.categories[product.category] || 0) + 1\<close>
  keys a fresh object by the category. The model follows it for a category that is a
  string and does not name a member of \<^verbatim>\<open>Object.prototype\<close> (for any other category
  the key is the value's string conversion, or the lookup finds an inherited member, and
  the model answers \<open>None\<close>). The list holds the keys in the order of their first
  occurrence.
\<close>

definition object_prototype_keys :: "string list" where
  "object_prototype_keys =
     [''constructor'', ''hasOwnProperty'', ''isPrototypeOf'', ''propertyIsEnumerable'',
      ''toLocaleString'', ''toString'', ''valueOf'', ''__proto__'', ''__defineGetter__'',
      ''__defineSetter__'', ''__lookupGetter__'', ''__lookupSetter__'']"

definition category_key :: "jsval \<Rightarrow> jstr option" where
  "category_key v =
     (case v of
        JStr s \<Rightarrow> if s \<in> set (map lit object_prototype_keys) then None else Some s
      | _ \<Rightarrow> None)"

fun bump :: "jstr \<Rightarrow> (jstr \<times> nat) list \<Rightarrow> (jstr \<times> nat) list" where
  "bump k [] = [(k, 1)]"
| "bump k ((k', n) # kvs) = (if k = k' then (k', n + 1) # kvs else (k', n) # bump k kvs)"

fun count_categories ::
  "product list \<Rightarrow> (jstr \<times> nat) list \<Rightarrow> (jstr \<times> nat) list option" where
  "count_categories [] acc = Some acc"
| "count_categories (p # ps) acc =
     (case category_key (category p) of
        None \<Rightarrow> None
      | Some k \<Rightarrow> count_categories ps (bump k acc))"

definition productStats :: middleware where
  "productStats e req ps =
     (case count_categories ps [] of
        None \<Rightarrow> (Send \<lparr>status = 200, payload = Unmodelled\<rparr>, ps)
      | Some cats \<Rightarrow>
          (Send \<lparr>status = 200, payload = Stats
             \<lparr>totalProducts = length ps,
              categories = cats,
              inStock_count = length (filter (\<lambda>p. truthy (inStock p)) ps),
              outOfStock = length (filter (\<lambda>p. \<not> truthy (inStock p)) ps)\<rparr>\<rparr>, ps))"

section \<open>The error-handling middleware\<close>

text \<open>\<^verbatim>\<open>err.statusCode || 500\<close> and \<^verbatim>\<open>err.name || 'InternalServerError'\<close>\<close>

definition errorHandler :: "error \<Rightarrow> response" where
  "errorHandler err =
     (let statusCode = (case statusCode err of
                          None \<Rightarrow> 500
                        | Some c \<Rightarrow> if c = 0 then 500 else c)
      in \<lparr>status = statusCode,
          payload = ErrorBody (message err)
            (if err_name err = [] then lit ''InternalServerError'' else err_name err)\<rparr>)"

section \<open>Routing\<close>

text \<open>
  Express tries the routes in the order in which the file registers them and runs the
  first one whose path pattern and verb match (a \<^verbatim>\<open>HEAD\<close> request runs a \<^verbatim>\<open>GET\<close>
  route; its answer goes out without the body). The pattern is matched against the path
  as sent: a literal segment is compared without regard to the case of ASCII letters,
  \<^verbatim>\<open>:id\<close> matches any one non-empty segment, which is then decoded with
  \<^verbatim>\<open>decodeURIComponent\<close> and bound. A segment that does not decode makes the router
  raise an error with status 400, before it looks at the verb. A route's functions run
  in order; a later route is tried only if all of them called \<^verbatim>\<open>next()\<close>. An error
  goes to the error-handling middleware. A request no route answers gets the list of
  allowed methods if it is an \<^verbatim>\<open>OPTIONS\<close> request for a path some route has, and
  otherwise Express's own 404 page.
\<close>

datatype seg = Lit string | Param string

datatype matched = NoMatch | Undecodable error | Match "(string \<times> jstr) list"

record route =
  route_method :: verb
  pattern :: "seg list"
  stack :: "middleware list"

definition decode_error :: "jstr \<Rightarrow> error" where
  "decode_error s =
     \<lparr>message = lit ''Failed to decode param '' @ [39] @ s @ [39],
      err_name = lit ''URIError'', statusCode = Some 400\<rparr>"

fun match_path :: "env \<Rightarrow> seg list \<Rightarrow> jstr list \<Rightarrow> matched" where
  "match_path e [] [] = Match []"
| "match_path e (Lit l # segs) (s # ss) =
     (if map ascii_lower s = map ascii_lower (lit l) then match_path e segs ss else NoMatch)"
| "match_path e (Param k # segs) (s # ss) =
     (if s = [] then NoMatch
      else (case match_path e segs ss of
              Match binds \<Rightarrow>
                (case decodeURIComponent e s of
                   None \<Rightarrow> Undecodable (decode_error s)
                 | Some v \<Rightarrow> Match ((k, v) # binds))
            | other \<Rightarrow> other))"
| "match_path e _ _ = NoMatch"

definition handles_method :: "verb \<Rightarrow> verb \<Rightarrow> bool" where
  "handles_method rm m = (m = rm \<or> (m = HEAD \<and> rm = GET))"

fun run_stack :: "middleware list \<Rightarrow> middleware" where
  "run_stack [] e req ps = (Next, ps)"
| "run_stack (m # ms) e req ps =
     (case m e req ps of
        (Next, ps') \<Rightarrow> run_stack ms e req ps'
      | (Throw err, ps') \<Rightarrow> (Throw err, ps')
      | (Send r, ps') \<Rightarrow> (Send r, ps'))"

text \<open>\<open>allowed\<close> records that an \<^verbatim>\<open>OPTIONS\<close> request has met a route for its path.\<close>

fun dispatch :: "route list \<Rightarrow> bool \<Rightarrow> middleware" where
  "dispatch [] allowed e req ps =
     (if allowed then (Send \<lparr>status = 200, payload = Allow\<rparr>, ps) else (Next, ps))"
| "dispatch (r # rs) allowed e req ps =
     (case match_path e (pattern r) (path req) of
        NoMatch \<Rightarrow> dispatch rs allowed e req ps
      | Undecodable err \<Rightarrow> (Throw err, ps)
      | Match binds \<Rightarrow>
          if handles_method (route_method r) (http_method req)
          then (case run_stack (stack r) e (req\<lparr>params := binds\<rparr>) ps of
                  (Next, ps') \<Rightarrow> dispatch rs allowed e req ps'
                | (Throw err, ps') \<Rightarrow> (Throw err, ps')
                | (Send resp, ps') \<Rightarrow> (Send resp, ps'))
          else dispatch rs (allowed \<or> http_method req = OPTIONS) e req ps)"

text \<open>The routes, in the order of the \<^verbatim>\<open>app.get\<close>, \<^verbatim>\<open>app.post\<close>, \<^verbatim>\<open>app.put\<close> and
  \<^verbatim>\<open>app.delete\<close> calls of the file.\<close>

definition routes :: "route list" where
  "routes =
     [\<lparr>route_method = GET, pattern = [], stack = [hello]\<rparr>,
      \<lparr>route_method = GET, pattern = [Lit ''api'', Lit ''products''],
         stack = [getProducts]\<rparr>,
      \<lparr>route_method = GET, pattern = [Lit ''api'', Lit ''products'', Param ''id''],
         stack = [getProduct]\<rparr>,
      \<lparr>route_method = POST, pattern = [Lit ''api'', Lit ''products''],
         stack = [authenticate, validateProduct, createProduct]\<rparr>,
      \<lparr>route_method = PUT, pattern = [Lit ''api'', Lit ''products'', Param ''id''],
         stack = [authenticate, validateProduct, updateProduct]\<rparr>,
      \<lparr>route_method = DELETE, pattern = [Lit ''api'', Lit ''products'', Param ''id''],
         stack = [authenticate, deleteProduct]\<rparr>,
      \<lparr>route_method = GET, pattern = [Lit ''api'', Lit ''products'', Lit ''stats''],
         stack = [productStats]\<rparr>]"

text \<open>One request served by the application: the JSON body parser, the logger, the
  routes, then the error-handling middleware. The result is the response and the new
  value of \<^verbatim>\<open>products\<close>.\<close>

definition respond :: "outcome \<times> product list \<Rightarrow> response \<times> product list" where
  "respond r =
     (case r of
        (Send resp, ps') \<Rightarrow> (resp, ps')
      | (Throw err, ps') \<Rightarrow> (errorHandler err, ps')
      | (Next, ps') \<Rightarrow> (\<lparr>status = 404, payload = CannotRoute\<rparr>, ps'))"

definition app :: "env \<Rightarrow> request \<Rightarrow> product list \<Rightarrow> response \<times> product list" where
  "app e req ps = respond (run_stack [jsonParser, logger, dispatch routes False] e req ps)"

section \<open>Vocabulary of the properties\<close>

text \<open>The path \<^verbatim>\<open>/api/products\<close>, and the last segment, as sent, of a path
  \<^verbatim>\<open>/api/products/:id\<close>.\<close>

definition collection_path :: "jstr list \<Rightarrow> bool" where
  "collection_path p = (map (map ascii_lower) p = [lit ''api'', lit ''products''])"

definition item_segment :: "jstr list \<Rightarrow> jstr option" where
  "item_segment p =
     (case p of
        [a, b, i] \<Rightarrow>
          if map ascii_lower a = lit ''api'' \<and> map ascii_lower b = lit ''products'' \<and> i \<noteq> []
          then Some i else None
      | _ \<Rightarrow> None)"

text \<open>The identifier a path \<^verbatim>\<open>/api/products/:id\<close> names, when its segment decodes.\<close>

definition item_id :: "env \<Rightarrow> jstr list \<Rightarrow> jstr option" where
  "item_id e p = (case item_segment p of None \<Rightarrow> None | Some s \<Rightarrow> decodeURIComponent e s)"

text \<open>The three protected operations, \<^verbatim>\<open>POST /api/products\<close>, \<^verbatim>\<open>PUT /api/products/:id\<close>
  and \<^verbatim>\<open>DELETE /api/products/:id\<close>, and the list request \<^verbatim>\<open>GET /api/products\<close>.\<close>

definition is_create :: "request \<Rightarrow> bool" where
  "is_create req = (http_method req = POST \<and> collection_path (path req))"

definition is_update :: "request \<Rightarrow> bool" where
  "is_update req = (http_method req = PUT \<and> item_segment (path req) \<noteq> None)"

definition is_delete :: "request \<Rightarrow> bool" where
  "is_delete req = (http_method req = DELETE \<and> item_segment (path req) \<noteq> None)"

definition is_list :: "request \<Rightarrow> bool" where
  "is_list req = (http_method req = GET \<and> collection_path (path req))"

text \<open>The request gets past the body parser and the decoding of its path parameter: the
  parser accepted the body, and the identifier segment, if the path has one, decodes.\<close>

definition body_parsed :: "request \<Rightarrow> bool" where
  "body_parsed req = (case body req of Inl _ \<Rightarrow> False | Inr _ \<Rightarrow> True)"

definition id_decodes :: "env \<Rightarrow> request \<Rightarrow> bool" where
  "id_decodes e req =
     (case item_segment (path req) of
        None \<Rightarrow> True
      | Some s \<Rightarrow> decodeURIComponent e s \<noteq> None)"

text \<open>The request carries a non-empty \<^verbatim>\<open>x-api-key\<close> header equal to the configured secret.\<close>

definition authenticated :: "env \<Rightarrow> request \<Rightarrow> bool" where
  "authenticated e req =
     (case map_of (headers req) (lit ''x-api-key'') of
        None \<Rightarrow> False
      | Some k \<Rightarrow> k \<noteq> [] \<and> API_KEY e = Some k)"

definition is_number :: "jsval \<Rightarrow> bool" where
  "is_number v = (case v of JNum _ \<Rightarrow> True | JPosInf \<Rightarrow> True | JNegInf \<Rightarrow> True | _ \<Rightarrow> False)"

definition is_string :: "jsval \<Rightarrow> bool" where
  "is_string v = (case v of JStr _ \<Rightarrow> True | _ \<Rightarrow> False)"

text \<open>A number strictly greater than zero.\<close>

definition positive :: "jsval \<Rightarrow> bool" where
  "positive v = (case v of JNum x \<Rightarrow> 0 < x | JPosInf \<Rightarrow> True | _ \<Rightarrow> False)"

text \<open>The four ways a body fails the field rules: the name is absent or falsy, the price
  is absent or falsy, the price is not a number, the price is not greater than zero.\<close>

definition invalid_body :: "jsval \<Rightarrow> bool" where
  "invalid_body b =
     (\<not> truthy (field b ''name'') \<or> \<not> truthy (field b ''price'')
      \<or> \<not> is_number (field b ''price'') \<or> \<not> positive (field b ''price''))"

text \<open>A stored record has all five fields (none is \<^verbatim>\<open>undefined\<close>).\<close>

definition populated :: "product \<Rightarrow> bool" where
  "populated p =
     (name p \<noteq> JUndefined \<and> description p \<noteq> JUndefined \<and> price p \<noteq> JUndefined
      \<and> category p \<noteq> JUndefined \<and> inStock p \<noteq> JUndefined)"

text \<open>
  The stores the process can be in: it starts with the two seed records, and every
  request served takes it from one store to the next. The identifier the generator
  returns for a request is assumed not to be in use.
\<close>

inductive reachable :: "product list \<Rightarrow> bool" where
  seed: "reachable products0"
| request: "reachable ps \<Longrightarrow> uuidv4 e \<notin> set (map id_p ps) \<Longrightarrow> reachable (snd (app e req ps))"

text \<open>The search predicate throws on this record: its name is not a string, or its name
  does not contain the term and its description is not a string.\<close>

definition search_faults :: "env \<Rightarrow> jstr \<Rightarrow> product \<Rightarrow> bool" where
  "search_faults e t p =
     (case name p of
        JStr n \<Rightarrow> \<not> includes_str (toLowerCase e n) t \<and> \<not> is_string (description p)
      | _ \<Rightarrow> True)"

text \<open>A query value that is absent or a string, not an array or an object.\<close>

definition plain :: "qval option \<Rightarrow> bool" where
  "plain v = (case v of None \<Rightarrow> True | Some (QStr _) \<Rightarrow> True | Some _ \<Rightarrow> False)"

text \<open>The two error responses with a fixed message.\<close>

definition unauthorized :: response where
  "unauthorized =
     \<lparr>status = 401, payload = ErrorBody (lit ''Invalid API key'') (lit ''UnauthorizedError'')\<rparr>"

definition not_found :: response where
  "not_found =
     \<lparr>status = 404, payload = ErrorBody (lit ''Product not found'') (lit ''NotFoundError'')\<rparr>"

text \<open>The failures the file's own code raises, by status code and name.\<close>

definition known_error :: "error \<Rightarrow> bool" where
  "known_error err \<longleftrightarrow>
     (statusCode err, err_name err) \<in>
       {(Some 404, lit ''NotFoundError''), (Some 400, lit ''ValidationError''),
        (Some 401, lit ''UnauthorizedError''), (None, lit ''TypeError'')}"

subsection \<open>Sample requests\<close>

text \<open>The samples are ASCII and have no percent sign, so the two runtime functions of
  the environment are never consulted on them; any two functions serve.\<close>

definition env0 :: env where
  "env0 = \<lparr>API_KEY = Some (lit ''secret''), uuidv4 = lit ''u-1'',
     unicode_lower = (\<lambda>s. s), decode_escapes = (\<lambda>s. None)\<rparr>"

text \<open>A request with no JSON body (\<^verbatim>\<open>req.body\<close> is the empty object).\<close>

definition request_to :: "verb \<Rightarrow> string list \<Rightarrow> request" where
  "request_to m p =
     \<lparr>http_method = m, path = map lit p, headers = [], query = [], body = Inr (JObj []),
      params = []\<rparr>"

definition with_key :: "request \<Rightarrow> request" where
  "with_key req = req\<lparr>headers := [(lit ''x-api-key'', lit ''secret'')]\<rparr>"

text \<open>\<^verbatim>\<open>GET /api/products/stats\<close>\<close>

definition get_stats :: request where
  "get_stats = request_to GET [''api'', ''products'', ''stats'']"

text \<open>\<^verbatim>\<open>GET /api/products?k=v&...\<close>\<close>

definition list_with :: "(string \<times> string) list \<Rightarrow> request" where
  "list_with q =
     (request_to GET [''api'', ''products''])\<lparr>query := map (\<lambda>(k, v). (lit k, QStr (lit v))) q\<rparr>"

text \<open>\<^verbatim>\<open>POST /api/products\<close> and \<^verbatim>\<open>PUT /api/products/1\<close> with the right key and a JSON
  body.\<close>

definition post_with :: "jsval \<Rightarrow> request" where
  "post_with b = with_key ((request_to POST [''api'', ''products''])\<lparr>body := Inr b\<rparr>)"

definition put_1_with :: "jsval \<Rightarrow> request" where
  "put_1_with b = with_key ((request_to PUT [''api'', ''products'', ''1''])\<lparr>body := Inr b\<rparr>)"

text \<open>A valid body whose description is the number 42.\<close>

definition widget :: jsval where
  "widget = JObj [(lit ''name'', JStr (lit ''Widget'')), (lit ''price'', JNum 5),
     (lit ''description'', JNum 42)]"

text \<open>A valid body that supplies an empty description.\<close>

definition laptop_blank :: jsval where
  "laptop_blank = JObj [(lit ''name'', JStr (lit ''Laptop'')), (lit ''price'', JNum 5),
     (lit ''description'', JStr [])]"

text \<open>The error the body parser passes on for the body \<^verbatim>\<open>{\<close>: the \<^verbatim>\<open>SyntaxError\<close> of
  \<^verbatim>\<open>JSON.parse\<close>, given the status 400.\<close>

definition malformed :: error where
  "malformed = \<lparr>message = lit ''Unexpected end of JSON input'', err_name = lit ''SyntaxError'',
     statusCode = Some 400\<rparr>"

section \<open>Facts about strings and filters\<close>

lemma lit_eq_iff [simp]: "lit a = lit b \<longleftrightarrow> a = b"
  by (simp add: lit_def inj_map_eq_map [OF inj_of_char])

lemma lit_nil [simp]: "lit a = [] \<longleftrightarrow> a = []" "[] = lit a \<longleftrightarrow> a = []"
  by (auto simp: lit_def)

lemma lower_consts:
  "map ascii_lower (lit ''api'') = lit ''api''"
  "map ascii_lower (lit ''products'') = lit ''products''"
  "map ascii_lower (lit ''stats'') = lit ''stats''"
  by (simp_all add: lit_def ascii_lower_def)

lemma includes_str_sublist: "includes_str s t \<longleftrightarrow> sublist t s"
  by (induction s) (auto simp: sublist_Cons_right)

lemma toLowerCase_ascii: "list_all (\<lambda>c. c < 128) s \<Longrightarrow> toLowerCase e s = map ascii_lower s"
  by (simp add: toLowerCase_def)

lemma decode_plain: "37 \<notin> set s \<Longrightarrow> decodeURIComponent e s = Some s"
  by (simp add: decodeURIComponent_def)

section \<open>Which functions serve a request\<close>

lemma match_root: "match_path e [] p = (if p = [] then Match [] else NoMatch)"
  by (cases p) auto

lemma match_collection:
  "match_path e [Lit ''api'', Lit ''products''] p =
     (if collection_path p then Match [] else NoMatch)"
  by (cases p; cases "tl p"; cases "tl (tl p)") (auto simp: collection_path_def lower_consts)

lemma match_item:
  "match_path e [Lit ''api'', Lit ''products'', Param ''id''] p =
     (case item_segment p of
        None \<Rightarrow> NoMatch
      | Some s \<Rightarrow>
          (case decodeURIComponent e s of
             None \<Rightarrow> Undecodable (decode_error s)
           | Some v \<Rightarrow> Match [(''id'', v)]))"
  by (cases p; cases "tl p"; cases "tl (tl p)"; cases "tl (tl (tl p))")
     (auto simp: item_segment_def lower_consts split: option.splits)

text \<open>Whatever matches the pattern of the statistics route also matches
  \<^verbatim>\<open>/api/products/:id\<close>.\<close>

lemma match_stats:
  "match_path e [Lit ''api'', Lit ''products'', Lit ''stats''] p =
     (if map (map ascii_lower) p = [lit ''api'', lit ''products'', lit ''stats'']
      then Match [] else NoMatch)"
  by (cases p; cases "tl p"; cases "tl (tl p)"; cases "tl (tl (tl p))")
     (auto simp: lower_consts)

lemma stats_is_item:
  "item_segment p = None \<Longrightarrow>
     map (map ascii_lower) p \<noteq> [lit ''api'', lit ''products'', lit ''stats'']"
  by (cases p; cases "tl p"; cases "tl (tl p)"; cases "tl (tl (tl p))")
     (auto simp: item_segment_def split: if_splits)

lemma path_facts:
  "collection_path p \<Longrightarrow> p \<noteq> []" "collection_path p \<Longrightarrow> item_segment p = None"
  "item_segment p = Some s \<Longrightarrow> p \<noteq> []" "item_segment p = Some s \<Longrightarrow> \<not> collection_path p"
  by (auto simp: collection_path_def item_segment_def split: list.splits)

lemma not_next_after:
  "fst r \<noteq> Next \<Longrightarrow>
   (case r of (Next, ps') \<Rightarrow> f ps' | (Throw err, ps') \<Rightarrow> (Throw err, ps')
            | (Send resp, ps') \<Rightarrow> (Send resp, ps')) = r"
  by (cases r) (auto split: outcome.splits)

lemma stack_single: "fst (m e req ps) \<noteq> Next \<Longrightarrow> run_stack [m] e req ps = m e req ps"
  by (cases "m e req ps") (auto split: outcome.splits)

lemma handlers_answer:
  "fst (hello e req ps) \<noteq> Next"
  "fst (getProducts e req ps) \<noteq> Next"
  "fst (getProduct e req ps) \<noteq> Next"
  "fst (run_stack [authenticate, validateProduct, createProduct] e req ps) \<noteq> Next"
  "fst (run_stack [authenticate, validateProduct, updateProduct] e req ps) \<noteq> Next"
  "fst (run_stack [authenticate, deleteProduct] e req ps) \<noteq> Next"
  by (simp_all add: hello_def getProducts_def getProduct_def authenticate_def
      validateProduct_def createProduct_def updateProduct_def deleteProduct_def Let_def
      split: sum.splits option.splits)

lemmas single_stacks =
  stack_single [OF handlers_answer(1)] stack_single [OF handlers_answer(2)]
  stack_single [OF handlers_answer(3)]

text \<open>Which functions serve a request: the table of routes, resolved. No request reaches
  \<open>productStats\<close>.\<close>

lemma dispatch_routes:
  "dispatch routes False e req ps =
     (case item_segment (path req) of
        Some s \<Rightarrow>
          (case decodeURIComponent e s of
             None \<Rightarrow> (Throw (decode_error s), ps)
           | Some i \<Rightarrow>
               (case http_method req of
                  GET \<Rightarrow> getProduct e (req\<lparr>params := [(''id'', i)]\<rparr>) ps
                | HEAD \<Rightarrow> getProduct e (req\<lparr>params := [(''id'', i)]\<rparr>) ps
                | PUT \<Rightarrow> run_stack [authenticate, validateProduct, updateProduct] e
                           (req\<lparr>params := [(''id'', i)]\<rparr>) ps
                | DELETE \<Rightarrow> run_stack [authenticate, deleteProduct] e
                              (req\<lparr>params := [(''id'', i)]\<rparr>) ps
                | OPTIONS \<Rightarrow> (Send \<lparr>status = 200, payload = Allow\<rparr>, ps)
                | _ \<Rightarrow> (Next, ps)))
      | None \<Rightarrow>
          if path req = [] then
            (case http_method req of
               GET \<Rightarrow> hello e (req\<lparr>params := []\<rparr>) ps
             | HEAD \<Rightarrow> hello e (req\<lparr>params := []\<rparr>) ps
             | OPTIONS \<Rightarrow> (Send \<lparr>status = 200, payload = Allow\<rparr>, ps)
             | _ \<Rightarrow> (Next, ps))
          else if collection_path (path req) then
            (case http_method req of
               GET \<Rightarrow> getProducts e (req\<lparr>params := []\<rparr>) ps
             | HEAD \<Rightarrow> getProducts e (req\<lparr>params := []\<rparr>) ps
             | POST \<Rightarrow> run_stack [authenticate, validateProduct, createProduct] e
                         (req\<lparr>params := []\<rparr>) ps
             | OPTIONS \<Rightarrow> (Send \<lparr>status = 200, payload = Allow\<rparr>, ps)
             | _ \<Rightarrow> (Next, ps))
          else (Next, ps))"
proof (cases "item_segment (path req)")
  case None
  note stats_is_item [OF None]
  with None show ?thesis
    unfolding routes_def
    by (cases "http_method req")
       (auto simp add: handles_method_def match_collection match_item match_root
          match_stats not_next_after handlers_answer single_stacks path_facts
          simp del: run_stack.simps)
next
  case (Some s)
  note path_facts(3,4) [OF Some]
  with Some show ?thesis
    unfolding routes_def
    by (cases "http_method req"; cases "decodeURIComponent e s")
       (auto simp add: handles_method_def match_collection match_item match_root
          match_stats not_next_after handlers_answer single_stacks
          simp del: run_stack.simps)
qed

lemma app_dispatch:
  "app e req ps =
     (case body req of
        Inl err \<Rightarrow> (errorHandler err, ps)
      | Inr b \<Rightarrow> respond (dispatch routes False e req ps))"
  by (simp add: app_def jsonParser_def logger_def respond_def
      split: sum.splits prod.splits outcome.splits)

section \<open>Facts about the middleware and the handlers\<close>

lemma findIndex_ge: "- 1 \<le> findIndex P xs"
  by (induction xs) (auto simp: Let_def)

lemma findIndex_first:
  "findIndex P xs = int k \<longleftrightarrow> k < length xs \<and> P (xs ! k) \<and> (\<forall>j < k. \<not> P (xs ! j))"
proof (induction xs arbitrary: k)
  case Nil
  show ?case by simp
next
  case (Cons x xs)
  show ?case
  proof (cases "P x")
    case True
    then show ?thesis by (cases k) auto
  next
    case False
    show ?thesis
    proof (cases k)
      case 0
      with False findIndex_ge [of P xs] show ?thesis by (auto simp: Let_def)
    next
      case (Suc k')
      have "findIndex P (x # xs) = int (Suc k') \<longleftrightarrow> findIndex P xs = int k'"
        using False by (auto simp: Let_def)
      also have "\<dots> \<longleftrightarrow> k' < length xs \<and> P (xs ! k') \<and> (\<forall>j < k'. \<not> P (xs ! j))"
        by (rule Cons.IH)
      also have "\<dots> \<longleftrightarrow> Suc k' < length (x # xs) \<and> P ((x # xs) ! Suc k')
          \<and> (\<forall>j < Suc k'. \<not> P ((x # xs) ! j))"
        using False by (auto simp: less_Suc_eq_0_disj)
      finally show ?thesis using Suc by simp
    qed
  qed
qed

lemma findIndex_found:
  assumes "findIndex P xs \<noteq> - 1"
  shows "nat (findIndex P xs) < length xs" and "P (xs ! nat (findIndex P xs))"
    and "findIndex P xs = int (nat (findIndex P xs))"
proof -
  from assms findIndex_ge [of P xs] have eq: "findIndex P xs = int (nat (findIndex P xs))"
    by arith
  then show "findIndex P xs = int (nat (findIndex P xs))" .
  from eq findIndex_first [of P xs "nat (findIndex P xs)"]
  show "nat (findIndex P xs) < length xs" and "P (xs ! nat (findIndex P xs))"
    by blast+
qed

lemma findIndex_firstI:
  assumes "k < length ps" and "P (ps ! k)" and "\<forall>j < k. \<not> P (ps ! j)"
  shows "findIndex P ps = int k"
  using assms findIndex_first [of P ps k] by blast

lemma authenticate_eq:
  "authenticate e req ps =
     (if authenticated e req then Next else Throw (UnauthorizedError ''Invalid API key''), ps)"
  by (auto simp: authenticate_def authenticated_def falsy_str_def Let_def split: option.splits)

lemma not_positive_number_eq: "not_positive_number v \<longleftrightarrow> \<not> is_number v \<or> \<not> positive v"
  by (cases v) (auto simp: is_number_def positive_def)

lemma field_nullish: "nullish b \<Longrightarrow> field b k = JUndefined"
  by (auto simp: nullish_def field_def)

lemma valid_body:
  assumes "\<not> invalid_body b"
  shows "truthy (field b ''name'')" and "truthy (field b ''price'')"
    and "positive (field b ''price'')" and "\<not> nullish b"
  using assms field_nullish [of b "''name''"] by (auto simp: invalid_body_def)

lemma validateProduct_eq:
  "validateProduct e req ps =
     (if nullish (req_body req) then Throw (cannot_read (req_body req) ''name'')
      else if \<not> truthy (field (req_body req) ''name'')
              \<or> \<not> truthy (field (req_body req) ''price'')
      then Throw (ValidationError ''Name and price are required'')
      else if invalid_body (req_body req)
      then Throw (ValidationError ''Price must be a positive number'')
      else Next, ps)"
  by (auto simp: validateProduct_def invalid_body_def not_positive_number_eq Let_def)

lemma params_irrelevant:
  "authenticated e (req\<lparr>params := b\<rparr>) = authenticated e req"
  "req_body (req\<lparr>params := b\<rparr>) = req_body req"
  "apply_filters e (req\<lparr>params := b\<rparr>) = apply_filters e req"
  "page_of (req\<lparr>params := b\<rparr>) = page_of req"
  "limit_of (req\<lparr>params := b\<rparr>) = limit_of req"
  by (auto simp: authenticated_def req_body_def apply_filters_def page_of_def limit_of_def
      fun_eq_iff)

lemma getProducts_params: "getProducts e (req\<lparr>params := b\<rparr>) = getProducts e req"
  by (simp add: getProducts_def params_irrelevant fun_eq_iff split: sum.splits)

lemma has_id_param: "has_id (req\<lparr>params := [(''id'', i)]\<rparr>) = (\<lambda>p. id_p p = i)"
  by (simp add: has_id_def fun_eq_iff)

lemma errorHandler_typed:
  "errorHandler (UnauthorizedError m) =
     \<lparr>status = 401, payload = ErrorBody (lit m) (lit ''UnauthorizedError'')\<rparr>"
  "errorHandler (ValidationError m) =
     \<lparr>status = 400, payload = ErrorBody (lit m) (lit ''ValidationError'')\<rparr>"
  "errorHandler (NotFoundError m) =
     \<lparr>status = 404, payload = ErrorBody (lit m) (lit ''NotFoundError'')\<rparr>"
  "errorHandler (TypeError m) = \<lparr>status = 500, payload = ErrorBody (lit m) (lit ''TypeError'')\<rparr>"
  "errorHandler (cannot_read v k) =
     \<lparr>status = 500, payload = ErrorBody (message (cannot_read v k)) (lit ''TypeError'')\<rparr>"
  "errorHandler (decode_error s) =
     \<lparr>status = 400, payload = ErrorBody (message (decode_error s)) (lit ''URIError'')\<rparr>"
  by (simp_all add: errorHandler_def UnauthorizedError_def ValidationError_def
      NotFoundError_def TypeError_def cannot_read_def decode_error_def)

lemma protected_cases:
  assumes "is_create req \<or> is_update req \<or> is_delete req"
  obtains (create) "http_method req = POST" "collection_path (path req)"
  | (update) s where "http_method req = PUT" "item_segment (path req) = Some s"
  | (delete) s where "http_method req = DELETE" "item_segment (path req) = Some s"
  using assms by (auto simp: is_create_def is_update_def is_delete_def)

lemma app_unparsed: "body req = Inl err \<Longrightarrow> app e req ps = (errorHandler err, ps)"
  by (simp add: app_dispatch)

lemma app_undecodable:
  assumes "body req = Inr b" and "item_segment (path req) = Some s"
    and "decodeURIComponent e s = None"
  shows "app e req ps = (errorHandler (decode_error s), ps)"
  using assms by (simp add: app_dispatch dispatch_routes respond_def)

lemma id_decodesD:
  "id_decodes e req \<Longrightarrow> item_segment (path req) = Some s
     \<Longrightarrow> \<exists>i. decodeURIComponent e s = Some i \<and> item_id e (path req) = Some i"
  by (auto simp: id_decodes_def item_id_def)

lemma app_unauthorized:
  assumes "is_create req \<or> is_update req \<or> is_delete req" and "body req = Inr b"
    and "id_decodes e req" and "\<not> authenticated e req"
  shows "app e req ps = (unauthorized, ps)"
  using assms(1)
proof (cases rule: protected_cases)
  case create
  with assms show ?thesis
    by (simp add: app_dispatch dispatch_routes path_facts authenticate_eq params_irrelevant
        respond_def errorHandler_typed unauthorized_def)
next
  case (update s)
  from id_decodesD [OF assms(3) update(2)] obtain i where "decodeURIComponent e s = Some i"
    by blast
  with update assms show ?thesis
    by (simp add: app_dispatch dispatch_routes authenticate_eq params_irrelevant
        respond_def errorHandler_typed unauthorized_def)
next
  case (delete s)
  from id_decodesD [OF assms(3) delete(2)] obtain i where "decodeURIComponent e s = Some i"
    by blast
  with delete assms show ?thesis
    by (simp add: app_dispatch dispatch_routes authenticate_eq params_irrelevant
        respond_def errorHandler_typed unauthorized_def)
qed

text \<open>The response of an authenticated create or update request up to the end of
  validation.\<close>

lemma app_validated:
  assumes "is_create req \<or> is_update req" and "body req = Inr b"
    and "id_decodes e req" and "authenticated e req"
  shows "nullish b \<Longrightarrow> app e req ps = (errorHandler (cannot_read b ''name''), ps)"
    and "\<not> nullish b \<Longrightarrow> invalid_body b \<Longrightarrow>
      \<exists>m. app e req ps =
        (\<lparr>status = 400, payload = ErrorBody (lit m) (lit ''ValidationError'')\<rparr>, ps)"
proof -
  have b: "req_body req = b" using assms(2) by (simp add: req_body_def)
  from assms(1) have "is_create req \<or> is_update req \<or> is_delete req" by blast
  then have v: "app e req ps = respond (validateProduct e req ps)"
    if "fst (validateProduct e req ps) \<noteq> Next"
  proof (cases rule: protected_cases)
    case create
    with assms that show ?thesis
      by (auto simp: app_dispatch dispatch_routes path_facts authenticate_eq
          params_irrelevant validateProduct_eq b split: if_splits)
  next
    case (update s)
    from id_decodesD [OF assms(3) update(2)] obtain i where "decodeURIComponent e s = Some i"
      by blast
    with update assms that show ?thesis
      by (auto simp: app_dispatch dispatch_routes authenticate_eq
          params_irrelevant validateProduct_eq b split: if_splits)
  next
    case (delete s)
    with assms(1) show ?thesis by (auto simp: is_create_def is_update_def)
  qed
  show "nullish b \<Longrightarrow> app e req ps = (errorHandler (cannot_read b ''name''), ps)"
    by (subst v) (simp_all add: validateProduct_eq b respond_def)
  show "\<not> nullish b \<Longrightarrow> invalid_body b \<Longrightarrow>
      \<exists>m. app e req ps =
        (\<lparr>status = 400, payload = ErrorBody (lit m) (lit ''ValidationError'')\<rparr>, ps)"
    by (subst v) (auto simp: validateProduct_eq b respond_def errorHandler_typed)
qed

lemma app_create:
  assumes "is_create req" and "body req = Inr b" and "authenticated e req"
    and "\<not> invalid_body b"
  shows "app e req ps =
    (\<lparr>status = 201, payload = Product (newProduct e b)\<rparr>, ps @ [newProduct e b])"
proof -
  have b: "req_body req = b" using assms(2) by (simp add: req_body_def)
  from assms valid_body [OF assms(4)] show ?thesis
    by (simp add: is_create_def app_dispatch dispatch_routes path_facts authenticate_eq
        validateProduct_eq params_irrelevant respond_def createProduct_def b)
qed

lemma app_update:
  assumes "http_method req = PUT" and "item_id e (path req) = Some i" and "body req = Inr b"
    and "authenticated e req" and "\<not> invalid_body b"
  shows "app e req ps =
    (if findIndex (\<lambda>p. id_p p = i) ps = - 1 then (not_found, ps)
     else (\<lparr>status = 200,
             payload = Product (updated b (ps ! nat (findIndex (\<lambda>p. id_p p = i) ps)))\<rparr>,
           ps[nat (findIndex (\<lambda>p. id_p p = i) ps) :=
                updated b (ps ! nat (findIndex (\<lambda>p. id_p p = i) ps))]))"
proof -
  have b: "req_body req = b" using assms(3) by (simp add: req_body_def)
  from assms(2) obtain s where "item_segment (path req) = Some s"
    "decodeURIComponent e s = Some i"
    by (auto simp: item_id_def split: option.splits)
  with assms valid_body [OF assms(5)] show ?thesis
    by (simp add: app_dispatch dispatch_routes authenticate_eq validateProduct_eq
        params_irrelevant respond_def updateProduct_def has_id_param errorHandler_typed
        not_found_def Let_def b)
qed

lemma app_delete:
  assumes "http_method req = DELETE" and "item_id e (path req) = Some i"
    and "body req = Inr b" and "authenticated e req"
  shows "app e req ps =
    (if findIndex (\<lambda>p. id_p p = i) ps = - 1 then (not_found, ps)
     else (\<lparr>status = 204, payload = Empty\<rparr>, filter (\<lambda>p. id_p p \<noteq> i) ps))"
proof -
  from assms(2) obtain s where "item_segment (path req) = Some s"
    "decodeURIComponent e s = Some i"
    by (auto simp: item_id_def split: option.splits)
  with assms show ?thesis
    by (simp add: app_dispatch dispatch_routes authenticate_eq params_irrelevant respond_def
        deleteProduct_def has_id_param errorHandler_typed not_found_def Let_def)
qed

lemma app_list:
  assumes "http_method req = GET \<or> http_method req = HEAD" and "collection_path (path req)"
    and "body req = Inr b"
  shows "app e req ps = respond (getProducts e req ps)"
  using assms
  by (auto simp: app_dispatch dispatch_routes getProducts_params path_facts)

lemma app_item:
  assumes "http_method req = GET \<or> http_method req = HEAD"
    and "item_id e (path req) = Some i" and "body req = Inr b"
  shows "app e req ps =
    (case find (\<lambda>p. id_p p = i) ps of
       None \<Rightarrow> (not_found, ps)
     | Some p \<Rightarrow> (\<lparr>status = 200, payload = Product p\<rparr>, ps))"
proof -
  from assms(2) obtain s where "item_segment (path req) = Some s"
    "decodeURIComponent e s = Some i"
    by (auto simp: item_id_def split: option.splits)
  with assms show ?thesis
    by (auto simp: app_dispatch dispatch_routes getProduct_def has_id_param respond_def
        errorHandler_typed not_found_def split: option.splits)
qed

lemma read_only:
  "snd (hello e req ps) = ps" "snd (getProducts e req ps) = ps" "snd (getProduct e req ps) = ps"
  by (simp_all add: hello_def getProducts_def getProduct_def split: sum.splits option.splits)

lemma respond_snd: "snd (respond r) = snd r"
  by (cases r) (auto simp: respond_def split: outcome.splits)

text \<open>What one request can do to the store.\<close>

lemma app_store:
  "snd (app e req ps) = ps
   \<or> (\<exists>b. body req = Inr b \<and> authenticated e req
        \<and> (is_create req \<and> \<not> invalid_body b \<and> snd (app e req ps) = ps @ [newProduct e b]
           \<or> is_update req \<and> \<not> invalid_body b
             \<and> (\<exists>k < length ps. snd (app e req ps) = ps[k := updated b (ps ! k)])
           \<or> is_delete req \<and> (\<exists>i. snd (app e req ps) = filter (\<lambda>p. id_p p \<noteq> i) ps)))"
proof (cases "body req")
  case (Inl err)
  then show ?thesis by (simp add: app_unparsed)
next
  case (Inr b)
  note body = this
  show ?thesis
  proof (cases "is_create req \<or> is_update req \<or> is_delete req")
    case False
    then have "snd (dispatch routes False e req ps) = ps"
      by (cases "http_method req")
         (auto simp: dispatch_routes is_create_def is_update_def is_delete_def read_only
            split: option.splits)
    with body show ?thesis by (simp add: app_dispatch respond_snd)
  next
    case True
    note prot = this
    show ?thesis
    proof (cases "id_decodes e req")
      case False
      then obtain s where "item_segment (path req) = Some s" "decodeURIComponent e s = None"
        by (auto simp: id_decodes_def split: option.splits)
      with body show ?thesis by (simp add: app_undecodable)
    next
      case True
      note dec = this
      show ?thesis
      proof (cases "authenticated e req")
        case False
        with prot body dec show ?thesis by (simp add: app_unauthorized)
      next
        case True
        note auth = this
        from prot show ?thesis
        proof (cases rule: protected_cases)
          case create
          then have c: "is_create req" by (simp add: is_create_def)
          show ?thesis
          proof (cases "invalid_body b")
            case True
            with app_validated [of req b e ps] c body dec auth show ?thesis
              by (cases "nullish b") auto
          next
            case False
            with c auth body show ?thesis by (simp add: app_create)
          qed
        next
          case (update s)
          then have u: "is_update req" by (simp add: is_update_def)
          from id_decodesD [OF dec update(2)] obtain i where i: "item_id e (path req) = Some i"
            by blast
          show ?thesis
          proof (cases "invalid_body b")
            case True
            with app_validated [of req b e ps] u body dec auth show ?thesis
              by (cases "nullish b") auto
          next
            case False
            show ?thesis
            proof (cases "findIndex (\<lambda>p. id_p p = i) ps = - 1")
              case True
              with update i auth False body show ?thesis by (simp add: app_update)
            next
              case nf: False
              from findIndex_found(1) [OF nf] update i auth False nf u body show ?thesis
                by (auto simp: app_update)
            qed
          qed
        next
          case (delete s)
          then have d: "is_delete req" by (simp add: is_delete_def)
          from id_decodesD [OF dec delete(2)] obtain i where i: "item_id e (path req) = Some i"
            by blast
          with delete auth body d show ?thesis
            by (auto simp: app_delete)
        qed
      qed
    qed
  qed
qed

section \<open>The sample requests\<close>

lemma ascii_samples:
  "list_all (\<lambda>c. c < 128) (lit ''zzz'')" "list_all (\<lambda>c. c < 128) (lit ''Laptop'')"
  "list_all (\<lambda>c. c < 128) (lit ''Desk Chair'')" "list_all (\<lambda>c. c < 128) (lit ''Widget'')"
  "list_all (\<lambda>c. c < 128) (lit ''widget'')" "list_all (\<lambda>c. c < 128) (lit ''CHAIR'')"
  "list_all (\<lambda>c. c < 128) (lit ''High-performance laptop'')"
  "list_all (\<lambda>c. c < 128) (lit ''Ergonomic office chair'')"
  by (simp_all add: lit_def)

lemma lower_samples:
  "toLowerCase e (lit ''zzz'') = lit ''zzz''" "toLowerCase e (lit ''Laptop'') = lit ''laptop''"
  "toLowerCase e (lit ''Desk Chair'') = lit ''desk chair''"
  "toLowerCase e (lit ''Widget'') = lit ''widget''"
  "toLowerCase e (lit ''widget'') = lit ''widget''"
  "toLowerCase e (lit ''CHAIR'') = lit ''chair''"
  "toLowerCase e (lit ''High-performance laptop'') = lit ''high-performance laptop''"
  "toLowerCase e (lit ''Ergonomic office chair'') = lit ''ergonomic office chair''"
  by (simp_all add: toLowerCase_ascii ascii_samples) (simp_all add: lit_def ascii_lower_def)

lemma sample_paths:
  "collection_path [lit ''api'', lit ''products'']"
  "item_segment [lit ''api'', lit ''products'', lit ''1''] = Some (lit ''1'')"
  "item_segment [lit ''api'', lit ''products'', lit ''stats''] = Some (lit ''stats'')"
  "decodeURIComponent e (lit ''1'') = Some (lit ''1'')"
  "decodeURIComponent e (lit ''stats'') = Some (lit ''stats'')"
  "item_id e [lit ''api'', lit ''products'', lit ''1''] = Some (lit ''1'')"
  "item_id e [lit ''api'', lit ''products'', lit ''stats''] = Some (lit ''stats'')"
  by (simp_all add: collection_path_def item_segment_def item_id_def decodeURIComponent_def
      lit_def ascii_lower_def)

lemma sample_requests:
  "authenticated env0 (put_1_with b)" "authenticated env0 (post_with b)"
  "http_method (put_1_with b) = PUT" "item_id e (path (put_1_with b)) = Some (lit ''1'')"
  "is_create (post_with b)" "body (put_1_with b) = Inr b" "body (post_with b) = Inr b"
  "is_update (put_1_with b)" "id_decodes e (put_1_with b)" "id_decodes e (post_with b)"
  by (simp_all add: put_1_with_def post_with_def with_key_def request_to_def authenticated_def
      env0_def is_create_def is_update_def id_decodes_def sample_paths
      path_facts(2) [OF sample_paths(1)])

lemma sample_bodies:
  "\<not> invalid_body laptop_blank" "\<not> invalid_body widget"
  "field widget ''description'' = JNum 42" "field laptop_blank ''description'' = JStr []"
  by (simp_all add: invalid_body_def laptop_blank_def widget_def field_def is_number_def
      positive_def)

lemma list_samples:
  "is_list (list_with q)" "query (list_with q) = map (\<lambda>(k, v). (lit k, QStr (lit v))) q"
  "http_method (list_with q) = GET" "collection_path (path (list_with q))"
  "body (list_with q) = Inr (JObj [])"
  by (simp_all add: is_list_def list_with_def request_to_def sample_paths)

section \<open>Authentication and validation\<close>

lemma error_answer:
  "\<exists>st m t. errorHandler err = \<lparr>status = st, payload = ErrorBody m t\<rparr>"
  by (simp add: errorHandler_def)

lemma malformed_answer:
  "errorHandler malformed =
     \<lparr>status = 400,
      payload = ErrorBody (lit ''Unexpected end of JSON input'') (lit ''SyntaxError'')\<rparr>"
  by (simp add: errorHandler_def malformed_def)

lemma post_samples:
  "is_create (request_to POST [''api'', ''products''])"
  "is_create ((request_to POST [''api'', ''products''])\<lparr>body := x\<rparr>)"
  "is_create (with_key ((request_to POST [''api'', ''products''])\<lparr>body := x\<rparr>))"
  "headers (request_to POST [''api'', ''products'']) = []"
  "id_decodes e (request_to POST [''api'', ''products''])"
  "body (request_to POST [''api'', ''products'']) = Inr (JObj [])"
  "authenticated env0 (with_key r)"
  "map_of (headers (post_with b)) (lit ''x-api-key'') = Some (lit ''secret'')"
  "body_parsed (post_with b)" "req_body (post_with b) = b" "\<not> is_delete (post_with b)"
  "body_parsed (request_to POST [''api'', ''products''])"
  by (simp_all add: is_create_def request_to_def with_key_def sample_paths id_decodes_def
      authenticated_def env0_def path_facts(2) [OF sample_paths(1)] post_with_def
      body_parsed_def req_body_def is_delete_def)

text \<open>
  C9. With the configured secret unset, no create, update or delete request succeeds,
  whatever the \<^verbatim>\<open>x-api-key\<close> header holds and also when the header is absent: each is
  answered with an error body and the store is left as it was. The answer is 401
  \<open>UnauthorizedError\<close> when the body parser accepted the request's body and the
  identifier segment of the path decodes; otherwise it is the error of the body parser,
  or the 400 \<open>URIError\<close> of the parameter decoding, both of which come before the
  authentication.
\<close>

theorem unset_secret_rejects_all:
  assumes "API_KEY e = None" and "is_create req \<or> is_update req \<or> is_delete req"
  shows "(body_parsed req \<and> id_decodes e req \<longrightarrow>
            app e req ps =
              (\<lparr>status = 401,
                payload = ErrorBody (lit ''Invalid API key'') (lit ''UnauthorizedError'')\<rparr>, ps))
       \<and> (\<forall>err. body req = Inl err \<longrightarrow> app e req ps = (errorHandler err, ps))
       \<and> (body_parsed req \<and> \<not> id_decodes e req \<longrightarrow>
            (\<exists>m. app e req ps =
               (\<lparr>status = 400, payload = ErrorBody m (lit ''URIError'')\<rparr>, ps)))
       \<and> (\<exists>st m t. app e req ps = (\<lparr>status = st, payload = ErrorBody m t\<rparr>, ps))"
proof -
  from assms(1) have na: "\<not> authenticated e req"
    by (simp add: authenticated_def split: option.splits)
  have 1: "app e req ps = (unauthorized, ps)" if "body_parsed req" "id_decodes e req"
  proof -
    from that(1) obtain b where "body req = Inr b"
      by (auto simp: body_parsed_def split: sum.splits)
    with assms(2) that(2) na show ?thesis by (simp add: app_unauthorized)
  qed
  have 2: "app e req ps = (errorHandler err, ps)" if "body req = Inl err" for err
    using that by (rule app_unparsed)
  have 3: "\<exists>s. app e req ps = (errorHandler (decode_error s), ps)"
    if "body_parsed req" "\<not> id_decodes e req"
  proof -
    from that(1) obtain b where b: "body req = Inr b"
      by (auto simp: body_parsed_def split: sum.splits)
    from that(2) obtain s where "item_segment (path req) = Some s" "decodeURIComponent e s = None"
      by (auto simp: id_decodes_def split: option.splits)
    with b show ?thesis by (auto simp: app_undecodable)
  qed
  have 4: "\<exists>st m t. app e req ps = (\<lparr>status = st, payload = ErrorBody m t\<rparr>, ps)"
  proof (cases "body req")
    case (Inl err)
    with 2 [OF Inl] error_answer [of err] show ?thesis by auto
  next
    case (Inr b)
    then have p: "body_parsed req" by (simp add: body_parsed_def)
    show ?thesis
    proof (cases "id_decodes e req")
      case True
      with 1 [OF p] show ?thesis by (simp add: unauthorized_def)
    next
      case False
      with 3 [OF p] obtain s where "app e req ps = (errorHandler (decode_error s), ps)" by blast
      with error_answer [of "decode_error s"] show ?thesis by auto
    qed
  qed
  from 1 2 3 4 show ?thesis by (auto simp: unauthorized_def errorHandler_typed)
qed

theorem unset_secret_rejects_all_witness:
  "API_KEY (env0\<lparr>API_KEY := None\<rparr>) = None
   \<and> is_create (post_with widget)
   \<and> map_of (headers (post_with widget)) (lit ''x-api-key'') = Some (lit ''secret'')
   \<and> body_parsed (post_with widget) \<and> id_decodes (env0\<lparr>API_KEY := None\<rparr>) (post_with widget)
   \<and> app (env0\<lparr>API_KEY := None\<rparr>) (post_with widget) products0 =
       (\<lparr>status = 401,
         payload = ErrorBody (lit ''Invalid API key'') (lit ''UnauthorizedError'')\<rparr>, products0)"
  using unset_secret_rejects_all [of "env0\<lparr>API_KEY := None\<rparr>" "post_with widget" products0]
  by (simp add: sample_requests post_samples)

text \<open>The claim as stated, 401 for every protected request, fails:
  with the secret unset, \<^verbatim>\<open>POST /api/products\<close> with the malformed body \<^verbatim>\<open>{\<close> is answered
  400 \<open>SyntaxError\<close> by the body parser.\<close>

theorem unset_secret_malformed_body:
  "API_KEY (env0\<lparr>API_KEY := None\<rparr>) = None
   \<and> is_create ((request_to POST [''api'', ''products''])\<lparr>body := Inl malformed\<rparr>)
   \<and> app (env0\<lparr>API_KEY := None\<rparr>)
       ((request_to POST [''api'', ''products''])\<lparr>body := Inl malformed\<rparr>) products0 =
       (\<lparr>status = 400,
         payload = ErrorBody (lit ''Unexpected end of JSON input'') (lit ''SyntaxError'')\<rparr>,
        products0)"
  by (simp add: post_samples app_unparsed malformed_answer)

text \<open>
  C6. A create, update or delete request that fails authentication or validation leaves
  the store exactly as it was: no request changes the store unless the body parser
  accepted it and it is an authenticated delete, or an authenticated create or update
  with a valid body. When the body parser accepted the body and the identifier segment
  decodes, a request whose \<^verbatim>\<open>x-api-key\<close> header is missing, empty or different from the
  secret is answered 401; when moreover the body is not \<^verbatim>\<open>undefined\<close> or \<^verbatim>\<open>null\<close>, an
  authenticated create or update whose body fails validation is answered 400.
\<close>

theorem rejected_request_leaves_store:
  assumes "is_create req \<or> is_update req \<or> is_delete req"
  shows "(body_parsed req \<and> id_decodes e req
          \<and> (map_of (headers req) (lit ''x-api-key'') = None
             \<or> map_of (headers req) (lit ''x-api-key'') = Some []
             \<or> map_of (headers req) (lit ''x-api-key'') \<noteq> API_KEY e)
          \<longrightarrow> app e req ps =
              (\<lparr>status = 401,
                payload = ErrorBody (lit ''Invalid API key'') (lit ''UnauthorizedError'')\<rparr>, ps))
       \<and> (body_parsed req \<and> id_decodes e req \<and> \<not> nullish (req_body req)
          \<and> authenticated e req \<and> \<not> is_delete req \<and> invalid_body (req_body req)
          \<longrightarrow> (\<exists>m. app e req ps =
                (\<lparr>status = 400, payload = ErrorBody m (lit ''ValidationError'')\<rparr>, ps)))
       \<and> (\<not> authenticated e req \<or> \<not> body_parsed req
          \<or> \<not> is_delete req \<and> invalid_body (req_body req)
          \<longrightarrow> snd (app e req ps) = ps)
       \<and> (\<forall>r qs. snd (app e r qs) \<noteq> qs
            \<longrightarrow> authenticated e r \<and> body_parsed r
              \<and> (is_delete r \<or> (is_create r \<or> is_update r) \<and> \<not> invalid_body (req_body r)))"
proof -
  have store: "authenticated e r \<and> body_parsed r
      \<and> (is_delete r \<or> (is_create r \<or> is_update r) \<and> \<not> invalid_body (req_body r))"
    if "snd (app e r qs) \<noteq> qs" for r qs
    using app_store [of e r qs] that by (auto simp: body_parsed_def req_body_def)
  have 1: "app e req ps = (unauthorized, ps)"
    if "body_parsed req" "id_decodes e req"
      "map_of (headers req) (lit ''x-api-key'') = None
       \<or> map_of (headers req) (lit ''x-api-key'') = Some []
       \<or> map_of (headers req) (lit ''x-api-key'') \<noteq> API_KEY e"
  proof -
    from that(1) obtain b where b: "body req = Inr b"
      by (auto simp: body_parsed_def split: sum.splits)
    from that(3) have "\<not> authenticated e req"
      by (auto simp: authenticated_def split: option.splits)
    with assms b that(2) show ?thesis by (simp add: app_unauthorized)
  qed
  have 2: "\<exists>m. app e req ps =
      (\<lparr>status = 400, payload = ErrorBody m (lit ''ValidationError'')\<rparr>, ps)"
    if "body_parsed req" "id_decodes e req" "\<not> nullish (req_body req)" "authenticated e req"
      "\<not> is_delete req" "invalid_body (req_body req)"
  proof -
    from that(1) obtain b where b: "body req = Inr b"
      by (auto simp: body_parsed_def split: sum.splits)
    then have rb: "req_body req = b" by (simp add: req_body_def)
    from assms that(5) have "is_create req \<or> is_update req" by blast
    from app_validated(2) [OF this b that(2) that(4), of ps] that(3,6) rb
    show ?thesis by auto
  qed
  have 3: "snd (app e req ps) = ps"
    if "\<not> authenticated e req \<or> \<not> body_parsed req
      \<or> \<not> is_delete req \<and> invalid_body (req_body req)"
    using store [of req ps] that assms by blast
  from 1 2 3 store show ?thesis by (simp add: unauthorized_def)
qed

theorem rejected_request_leaves_store_witness:
  "is_create (request_to POST [''api'', ''products''])
   \<and> body_parsed (request_to POST [''api'', ''products''])
   \<and> id_decodes env0 (request_to POST [''api'', ''products''])
   \<and> map_of (headers (request_to POST [''api'', ''products''])) (lit ''x-api-key'') = None
   \<and> app env0 (request_to POST [''api'', ''products'']) products0 =
       (\<lparr>status = 401,
         payload = ErrorBody (lit ''Invalid API key'') (lit ''UnauthorizedError'')\<rparr>, products0)
   \<and> is_create (post_with (JObj [(lit ''name'', JStr (lit ''Widget''))]))
   \<and> authenticated env0 (post_with (JObj [(lit ''name'', JStr (lit ''Widget''))]))
   \<and> invalid_body (req_body (post_with (JObj [(lit ''name'', JStr (lit ''Widget''))])))
   \<and> (\<exists>m. app env0 (post_with (JObj [(lit ''name'', JStr (lit ''Widget''))])) products0 =
          (\<lparr>status = 400, payload = ErrorBody m (lit ''ValidationError'')\<rparr>, products0))"
  using rejected_request_leaves_store
    [of "request_to POST [''api'', ''products'']" env0 products0]
    rejected_request_leaves_store
    [of "post_with (JObj [(lit ''name'', JStr (lit ''Widget''))])" env0 products0]
  by (simp add: post_samples sample_requests invalid_body_def field_def nullish_def)

text \<open>The claim as stated, 401 for every request that fails
  authentication, fails: \<^verbatim>\<open>POST /api/products\<close> without a key and with the malformed body
  \<^verbatim>\<open>{\<close> is answered 400 \<open>SyntaxError\<close> by the body parser, which runs before the
  authentication.\<close>

theorem unauthenticated_malformed_body:
  "is_create ((request_to POST [''api'', ''products''])\<lparr>body := Inl malformed\<rparr>)
   \<and> map_of (headers ((request_to POST [''api'', ''products''])\<lparr>body := Inl malformed\<rparr>))
       (lit ''x-api-key'') = None
   \<and> \<not> authenticated env0 ((request_to POST [''api'', ''products''])\<lparr>body := Inl malformed\<rparr>)
   \<and> app env0 ((request_to POST [''api'', ''products''])\<lparr>body := Inl malformed\<rparr>) products0 =
       (\<lparr>status = 400,
         payload = ErrorBody (lit ''Unexpected end of JSON input'') (lit ''SyntaxError'')\<rparr>,
        products0)"
  by (simp add: post_samples app_unparsed malformed_answer)
     (simp add: request_to_def authenticated_def)

text \<open>
  C4. An authenticated create or update request whose body the parser accepted and left
  as a value other than \<^verbatim>\<open>undefined\<close> and \<^verbatim>\<open>null\<close>, and whose identifier segment decodes,
  is answered 400 \<open>ValidationError\<close> exactly when the name is absent or falsy, or the
  price is absent or falsy, or the price is not a number, or the price is not greater
  than zero. When the parser leaves \<^verbatim>\<open>req.body\<close> undefined the request is answered 500
  \<open>TypeError\<close>, and when the parser rejected the body it is answered with the parser's
  error, before any field is looked at.
\<close>

theorem validation_rejects_iff:
  assumes "is_create req \<or> is_update req" and "authenticated e req"
    and "body req = Inr b" and "id_decodes e req"
  shows "(\<not> nullish b \<longrightarrow>
           ((\<exists>m. fst (app e req ps) =
                \<lparr>status = 400, payload = ErrorBody m (lit ''ValidationError'')\<rparr>)
            \<longleftrightarrow> invalid_body b))
       \<and> (nullish b \<longrightarrow>
           (\<exists>m. app e req ps = (\<lparr>status = 500, payload = ErrorBody m (lit ''TypeError'')\<rparr>, ps)))"
proof (intro conjI impI)
  assume "nullish b"
  with app_validated(1) [OF assms(1,3,4,2), of ps]
  show "\<exists>m. app e req ps = (\<lparr>status = 500, payload = ErrorBody m (lit ''TypeError'')\<rparr>, ps)"
    by (simp add: errorHandler_typed)
next
  assume nn: "\<not> nullish b"
  show "(\<exists>m. fst (app e req ps) =
            \<lparr>status = 400, payload = ErrorBody m (lit ''ValidationError'')\<rparr>)
        \<longleftrightarrow> invalid_body b"
  proof
    assume "invalid_body b"
    with app_validated(2) [OF assms(1,3,4,2) nn, of ps]
    show "\<exists>m. fst (app e req ps) =
        \<lparr>status = 400, payload = ErrorBody m (lit ''ValidationError'')\<rparr>"
      by force
  next
    assume r: "\<exists>m. fst (app e req ps) =
        \<lparr>status = 400, payload = ErrorBody m (lit ''ValidationError'')\<rparr>"
    show "invalid_body b"
    proof (rule ccontr)
      assume v: "\<not> invalid_body b"
      from assms(1) have "status (fst (app e req ps)) \<noteq> 400"
      proof
        assume "is_create req"
        with assms(2,3) v show ?thesis by (simp add: app_create)
      next
        assume "is_update req"
        then obtain s where m: "http_method req = PUT" and "item_segment (path req) = Some s"
          by (auto simp: is_update_def)
        with id_decodesD [OF assms(4)] obtain i where "item_id e (path req) = Some i" by blast
        with m assms(2,3) v show ?thesis by (simp add: app_update not_found_def)
      qed
      with r show False by auto
    qed
  qed
qed

text \<open>The instance of the claim: \<^verbatim>\<open>POST /api/products\<close> with a valid name and
  \<^verbatim>\<open>price: 0\<close> is answered 400.\<close>

theorem validation_rejects_iff_witness:
  "is_create (post_with (JObj [(lit ''name'', JStr (lit ''Widget'')), (lit ''price'', JNum 0)]))
   \<and> authenticated env0
       (post_with (JObj [(lit ''name'', JStr (lit ''Widget'')), (lit ''price'', JNum 0)]))
   \<and> (\<exists>m. fst (app env0
         (post_with (JObj [(lit ''name'', JStr (lit ''Widget'')), (lit ''price'', JNum 0)]))
         products0)
          = \<lparr>status = 400, payload = ErrorBody m (lit ''ValidationError'')\<rparr>)"
  using validation_rejects_iff
    [of "post_with (JObj [(lit ''name'', JStr (lit ''Widget'')), (lit ''price'', JNum 0)])" env0
        "JObj [(lit ''name'', JStr (lit ''Widget'')), (lit ''price'', JNum 0)]" products0]
  by (simp add: sample_requests invalid_body_def field_def nullish_def)

text \<open>The claim as stated, for every authenticated create or update
  request, fails: the authenticated \<^verbatim>\<open>POST /api/products\<close> with the malformed body \<^verbatim>\<open>{\<close>
  has no name, yet it is answered 400 \<open>SyntaxError\<close>, and the one whose body the parser
  leaves undefined is answered 500 \<open>TypeError\<close>; neither is a \<open>ValidationError\<close>.\<close>

theorem validation_not_reached:
  "is_create (with_key ((request_to POST [''api'', ''products''])\<lparr>body := Inl malformed\<rparr>))
   \<and> authenticated env0
       (with_key ((request_to POST [''api'', ''products''])\<lparr>body := Inl malformed\<rparr>))
   \<and> field (req_body (with_key ((request_to POST [''api'', ''products''])\<lparr>body := Inl malformed\<rparr>)))
       ''name'' = JUndefined
   \<and> app env0 (with_key ((request_to POST [''api'', ''products''])\<lparr>body := Inl malformed\<rparr>))
       products0 =
       (\<lparr>status = 400,
         payload = ErrorBody (lit ''Unexpected end of JSON input'') (lit ''SyntaxError'')\<rparr>,
        products0)
   \<and> is_create (post_with JUndefined) \<and> authenticated env0 (post_with JUndefined)
   \<and> invalid_body JUndefined
   \<and> app env0 (post_with JUndefined) products0 =
       (\<lparr>status = 500,
         payload = ErrorBody (lit ''Cannot read properties of undefined (reading 'name')'')
           (lit ''TypeError'')\<rparr>,
        products0)"
proof -
  have "app env0 (post_with JUndefined) products0 =
      (errorHandler (cannot_read JUndefined ''name''), products0)"
    by (rule app_validated(1) [where b = JUndefined])
       (simp_all add: sample_requests nullish_def)
  then have u: "app env0 (post_with JUndefined) products0 =
      (\<lparr>status = 500,
        payload = ErrorBody (lit ''Cannot read properties of undefined (reading 'name')'')
          (lit ''TypeError'')\<rparr>,
       products0)"
    by (simp add: errorHandler_typed) (simp add: cannot_read_def TypeError_def)
  have "req_body (with_key ((request_to POST [''api'', ''products''])\<lparr>body := Inl malformed\<rparr>))
      = JUndefined"
    by (simp add: with_key_def request_to_def req_body_def)
  then have f: "field (req_body
      (with_key ((request_to POST [''api'', ''products''])\<lparr>body := Inl malformed\<rparr>))) ''name''
      = JUndefined"
    by (simp add: field_def)
  have m: "body (with_key ((request_to POST [''api'', ''products''])\<lparr>body := Inl malformed\<rparr>))
      = Inl malformed"
    by (simp add: with_key_def request_to_def)
  have i: "invalid_body JUndefined"
    by (simp add: invalid_body_def field_def)
  from u f i show ?thesis
    by (simp add: post_samples sample_requests app_unparsed [OF m] malformed_answer)
qed

section \<open>The store invariant\<close>

lemma truthy_defined: "truthy v \<Longrightarrow> v \<noteq> JUndefined"
  by auto

lemma js_or_defined: "b \<noteq> JUndefined \<Longrightarrow> js_or a b \<noteq> JUndefined"
  by (auto simp: js_or_def)

lemma newProduct_ok:
  assumes "\<not> invalid_body b"
  shows "positive (price (newProduct e b))" and "populated (newProduct e b)"
    and "id_p (newProduct e b) = uuidv4 e"
  using valid_body(1-3) [OF assms]
  by (auto simp: newProduct_def populated_def js_or_defined positive_def)

lemma updated_ok:
  assumes "\<not> invalid_body b" and "populated old"
  shows "positive (price (updated b old))" and "populated (updated b old)"
    and "id_p (updated b old) = id_p old"
  using valid_body(1-3) [OF assms(1)] assms(2)
  by (auto simp: updated_def populated_def js_or_defined positive_def)

lemma seed_ok:
  "distinct (map id_p products0)" "\<forall>p \<in> set products0. positive (price p) \<and> populated p"
  by (simp_all add: products0_def laptop_def desk_chair_def positive_def populated_def lit_def)

lemma widget_created:
  "app env0 (post_with widget) products0 =
     (\<lparr>status = 201, payload = Product (newProduct env0 widget)\<rparr>,
      products0 @ [newProduct env0 widget])"
  "description (newProduct env0 widget) = JNum 42"
  "name (newProduct env0 widget) = JStr (lit ''Widget'')"
  "price (newProduct env0 widget) = JNum 5"
  "category (newProduct env0 widget) = JStr (lit ''Uncategorized'')"
  "id_p (newProduct env0 widget) = lit ''u-1''"
  by (simp_all add: app_create sample_requests sample_bodies)
     (simp_all add: newProduct_def widget_def field_def js_or_def env0_def)

text \<open>
  C7. In every store reachable from the two seed records by serving requests (each with
  a generated identifier that is not in use), the identifiers are pairwise distinct,
  every price is a number greater than zero, and every record has its name,
  description, price, category and inStock fields.
\<close>

theorem reachable_store_invariant:
  assumes "reachable ps"
  shows "distinct (map id_p ps) \<and> (\<forall>p \<in> set ps. positive (price p) \<and> populated p)"
  using assms
proof (induction rule: reachable.induct)
  case seed
  show ?case using seed_ok by blast
next
  case (request ps e req)
  let ?ps' = "snd (app e req ps)"
  from request.IH have d: "distinct (map id_p ps)"
    and ok: "\<And>p. p \<in> set ps \<Longrightarrow> positive (price p) \<and> populated p"
    by blast+
  consider (same) "?ps' = ps"
    | (create) b where "\<not> invalid_body b" "?ps' = ps @ [newProduct e b]"
    | (update) b k where "\<not> invalid_body b" "k < length ps"
        "?ps' = ps[k := updated b (ps ! k)]"
    | (delete) i where "?ps' = filter (\<lambda>p. id_p p \<noteq> i) ps"
    using app_store [of e req ps] by blast
  then show ?case
  proof cases
    case same
    with request.IH show ?thesis by simp
  next
    case (create b)
    from newProduct_ok [OF create(1), of e] request.hyps(2) d ok
    show ?thesis unfolding create(2) by auto
  next
    case (update b k)
    from update(2) have old: "populated (ps ! k)" using ok by simp
    note new = updated_ok [OF update(1) old]
    have "map id_p (ps[k := updated b (ps ! k)]) = map id_p ps"
      using update(2) new(3) by (simp add: map_update list_update_same_conv)
    moreover have "set (ps[k := updated b (ps ! k)]) \<subseteq> insert (updated b (ps ! k)) (set ps)"
      by (rule set_update_subset_insert)
    ultimately show ?thesis
      unfolding update(3) using d ok new(1,2) by auto
  next
    case (delete i)
    show ?thesis
      unfolding delete using d ok by (auto simp: distinct_map_filter)
  qed
qed

theorem reachable_store_invariant_witness:
  "reachable (products0 @ [newProduct env0 widget])
   \<and> distinct (map id_p (products0 @ [newProduct env0 widget]))
   \<and> price (newProduct env0 widget) = JNum 5
   \<and> positive (price (newProduct env0 widget))
   \<and> populated (newProduct env0 widget)"
proof -
  have "reachable (snd (app env0 (post_with widget) products0))"
    by (rule reachable.request [OF reachable.seed])
       (simp add: env0_def products0_def laptop_def desk_chair_def lit_def)
  then have r: "reachable (products0 @ [newProduct env0 widget])"
    by (simp add: widget_created)
  from reachable_store_invariant [OF r] r show ?thesis
    by (simp add: widget_created)
qed

section \<open>Error translation\<close>

lemma stack_eq:
  "run_stack [jsonParser, logger, dispatch routes False] e req ps =
     (case body req of
        Inl err \<Rightarrow> (Throw err, ps)
      | Inr b \<Rightarrow> dispatch routes False e req ps)"
  by (simp add: jsonParser_def logger_def split: sum.splits prod.splits outcome.splits)

lemma thrown_kinds:
  "statusCode (NotFoundError m) = Some 404" "err_name (NotFoundError m) = lit ''NotFoundError''"
  "statusCode (ValidationError m) = Some 400"
  "err_name (ValidationError m) = lit ''ValidationError''"
  "statusCode (UnauthorizedError m) = Some 401"
  "err_name (UnauthorizedError m) = lit ''UnauthorizedError''"
  "statusCode (TypeError m) = None" "err_name (TypeError m) = lit ''TypeError''"
  by (simp_all add: NotFoundError_def ValidationError_def UnauthorizedError_def TypeError_def)

lemma known_errors:
  "known_error (NotFoundError m)" "known_error (ValidationError m)"
  "known_error (UnauthorizedError m)" "known_error (TypeError m)"
  "known_error (cannot_read v k)"
  by (simp_all add: known_error_def thrown_kinds cannot_read_def)

lemma join_with_throws:
  assumes "join_with sep xs = Inl err"
  shows "Inl err \<in> set xs"
  using assms
  by (induction sep xs rule: join_with.induct) (auto split: sum.splits)

lemma qToString_throws: "qToString q = Inl err \<Longrightarrow> \<exists>m. err = TypeError m"
proof (induction q rule: qToString.induct)
  case (2 xs)
  from join_with_throws [OF 2(2) [simplified]] 2(1) show ?case by auto
qed (auto split: if_splits)

lemma qToString_plain: "plain (Some q) \<Longrightarrow> \<exists>s. q = QStr s \<and> qToString q = Inr s"
  by (cases q) (auto simp: plain_def)

lemma parse_throws:
  "page_of req = Inl err \<Longrightarrow> \<exists>m. err = TypeError m"
  "limit_of req = Inl err \<Longrightarrow> \<exists>m. err = TypeError m"
  using qToString_throws
  by (auto simp: page_of_def limit_of_def parseInt_param_def split: option.splits sum.splits)

lemma apply_filters_throws:
  assumes "apply_filters e req ps = Inl err"
  shows "\<exists>m. err = TypeError m"
proof -
  have lower: "\<exists>m. x = TypeError m" if "lower_of e ex v = Inl x" for ex v x
    using that by (cases v) (auto simp: lower_of_def cannot_read_def)
  have pred: "\<exists>m. x = TypeError m" if "matches_search e t p = Inl x" for t p x
    using that lower
    by (fastforce simp: matches_search_def split: sum.splits if_splits)
  have loop: "\<exists>m. x = TypeError m" if "filterE (matches_search e t) xs = Inl x" for t xs x
    using that pred by (induction xs) (auto split: sum.splits)
  from assms show ?thesis
    using loop
    by (auto simp: apply_filters_def filter_search_def split: if_splits option.splits qval.splits)
qed

lemma handler_throws:
  "getProducts e req ps = (Throw err, ps') \<Longrightarrow> known_error err \<and> ps' = ps"
  "getProduct e req ps = (Throw err, ps') \<Longrightarrow> known_error err \<and> ps' = ps"
  "hello e req ps \<noteq> (Throw err, ps')"
  "run_stack [authenticate, validateProduct, createProduct] e req ps = (Throw err, ps')
     \<Longrightarrow> known_error err \<and> ps' = ps"
  "run_stack [authenticate, validateProduct, updateProduct] e req ps = (Throw err, ps')
     \<Longrightarrow> known_error err \<and> ps' = ps"
  "run_stack [authenticate, deleteProduct] e req ps = (Throw err, ps')
     \<Longrightarrow> known_error err \<and> ps' = ps"
proof -
  show "getProducts e req ps = (Throw err, ps') \<Longrightarrow> known_error err \<and> ps' = ps"
    using apply_filters_throws [of e req ps] parse_throws [of req]
    by (auto simp: getProducts_def known_errors split: sum.splits)
  show "getProduct e req ps = (Throw err, ps') \<Longrightarrow> known_error err \<and> ps' = ps"
    by (auto simp: getProduct_def known_errors split: option.splits)
  show "hello e req ps \<noteq> (Throw err, ps')"
    by (simp add: hello_def)
  show "run_stack [authenticate, validateProduct, createProduct] e req ps = (Throw err, ps')
     \<Longrightarrow> known_error err \<and> ps' = ps"
    by (auto simp: authenticate_eq validateProduct_eq createProduct_def known_errors
        split: if_splits)
  show "run_stack [authenticate, validateProduct, updateProduct] e req ps = (Throw err, ps')
     \<Longrightarrow> known_error err \<and> ps' = ps"
    by (auto simp: authenticate_eq validateProduct_eq updateProduct_def known_errors Let_def
        split: if_splits)
  show "run_stack [authenticate, deleteProduct] e req ps = (Throw err, ps')
     \<Longrightarrow> known_error err \<and> ps' = ps"
    by (auto simp: authenticate_eq deleteProduct_def known_errors Let_def split: if_splits)
qed

lemma dispatch_throws:
  assumes "dispatch routes False e req ps = (Throw err, ps')"
  shows "ps' = ps
    \<and> ((\<exists>s. item_segment (path req) = Some s \<and> decodeURIComponent e s = None
             \<and> err = decode_error s)
       \<or> known_error err)"
  using assms handler_throws [of e _ ps err ps']
  by (cases "http_method req")
     (auto simp: dispatch_routes simp del: run_stack.simps split: if_splits option.splits)

lemma search_zzz_throws:
  "apply_filters env0 (list_with [(''search'', ''zzz'')]) (products0 @ [newProduct env0 widget]) =
    Inl (TypeError ''p.description.toLowerCase is not a function'')"
  by (simp add: apply_filters_def list_samples filter_search_def filter_category_def
      products0_def laptop_def desk_chair_def widget_created
      matches_search_def lower_of_def lower_samples)
     (simp add: lit_def)

lemma search_zzz_answer:
  "app env0 (list_with [(''search'', ''zzz'')]) (products0 @ [newProduct env0 widget]) =
    (\<lparr>status = 500,
      payload = ErrorBody (lit ''p.description.toLowerCase is not a function'')
        (lit ''TypeError'')\<rparr>,
     products0 @ [newProduct env0 widget])"
  by (subst app_list [where b = "JObj []"])
     (simp_all add: list_samples getProducts_def search_zzz_throws respond_def
        errorHandler_typed)

text \<open>
  C3. Whatever the body parser, the router or a route's functions pass on as an error
  reaches the error-handling middleware, which answers with the body
  \<open>{error: {message, type}}\<close>, the status code the failure carries, or 500 when it carries
  none, and as type the failure's own name, or \<open>InternalServerError\<close> when it has none;
  the store is left as it was. The failures the functions of the file raise are the three
  declared classes (404, 400, 401) and the runtime's \<open>TypeError\<close>, which is answered 500
  with type \<open>TypeError\<close>; the error of the body parser and the \<open>URIError\<close> of the
  parameter decoding carry their own status code and name and are answered with those.
\<close>

theorem failures_translated:
  assumes "run_stack [jsonParser, logger, dispatch routes False] e req ps = (Throw err, ps')"
  shows "app e req ps =
           (\<lparr>status = (case statusCode err of
                         None \<Rightarrow> 500
                       | Some c \<Rightarrow> if c = 0 then 500 else c),
             payload = ErrorBody (message err)
               (if err_name err = [] then lit ''InternalServerError'' else err_name err)\<rparr>, ps')
         \<and> ps' = ps
         \<and> (\<not> body_parsed req \<longrightarrow> body req = Inl err)
         \<and> (body_parsed req \<longrightarrow>
              (\<exists>s. item_segment (path req) = Some s \<and> decodeURIComponent e s = None
                   \<and> err = decode_error s)
              \<or> (statusCode err, err_name err) \<in>
                  {(Some 404, lit ''NotFoundError''), (Some 400, lit ''ValidationError''),
                   (Some 401, lit ''UnauthorizedError''), (None, lit ''TypeError'')})
         \<and> errorHandler \<lparr>message = m, err_name = [], statusCode = None\<rparr> =
             \<lparr>status = 500, payload = ErrorBody m (lit ''InternalServerError'')\<rparr>"
proof -
  have a: "app e req ps = (errorHandler err, ps')"
    using assms by (simp add: app_def respond_def)
  have b: "ps' = ps \<and> body req = Inl err" if "\<not> body_parsed req"
    using that assms [unfolded stack_eq] by (auto simp: body_parsed_def split: sum.splits)
  have c: "ps' = ps
      \<and> ((\<exists>s. item_segment (path req) = Some s \<and> decodeURIComponent e s = None
               \<and> err = decode_error s)
         \<or> known_error err)" if "body_parsed req"
  proof -
    from that assms [unfolded stack_eq] have "dispatch routes False e req ps = (Throw err, ps')"
      by (auto simp: body_parsed_def split: sum.splits)
    then show ?thesis by (rule dispatch_throws)
  qed
  from a b c show ?thesis
    by (cases "body_parsed req") (auto simp: errorHandler_def known_error_def)
qed

theorem failures_translated_witness:
  "run_stack [jsonParser, logger, dispatch routes False] env0 get_stats products0 =
     (Throw (NotFoundError ''Product not found''), products0)
   \<and> body_parsed get_stats
   \<and> app env0 get_stats products0 =
     (\<lparr>status = 404, payload = ErrorBody (lit ''Product not found'') (lit ''NotFoundError'')\<rparr>,
      products0)"
proof -
  have "dispatch routes False env0 get_stats products0 =
      (Throw (NotFoundError ''Product not found''), products0)"
    by (simp add: dispatch_routes get_stats_def request_to_def sample_paths getProduct_def
        has_id_def)
       (simp add: products0_def laptop_def desk_chair_def lit_def has_id_def)
  then have t: "run_stack [jsonParser, logger, dispatch routes False] env0 get_stats products0 =
      (Throw (NotFoundError ''Product not found''), products0)"
    unfolding stack_eq by (simp add: get_stats_def request_to_def)
  have p: "body_parsed get_stats"
    by (simp add: body_parsed_def get_stats_def request_to_def)
  from failures_translated [OF t] t p show ?thesis
    by (simp add: thrown_kinds NotFoundError_def)
qed

text \<open>
  The claim as stated fails for both kinds of untyped fault. After a
  record with a numeric description has been created, a search that reaches it throws a
  \<open>TypeError\<close>, which carries no status code: the response is 500, but its type is
  \<open>TypeError\<close>, not \<open>InternalServerError\<close>. And the \<open>SyntaxError\<close> the body parser passes
  on for the malformed body \<^verbatim>\<open>{\<close> is none of the three declared classes, yet it is
  answered 400, not 500, with type \<open>SyntaxError\<close>.
\<close>

theorem untyped_fault_keeps_its_name:
  "statusCode (TypeError ''p.description.toLowerCase is not a function'') = None
   \<and> app env0 (list_with [(''search'', ''zzz'')])
         (snd (app env0 (post_with widget) products0)) =
       (\<lparr>status = 500,
         payload = ErrorBody (lit ''p.description.toLowerCase is not a function'')
           (lit ''TypeError'')\<rparr>,
        snd (app env0 (post_with widget) products0))
   \<and> app env0 ((request_to GET [''api'', ''products''])\<lparr>body := Inl malformed\<rparr>) products0 =
       (\<lparr>status = 400,
         payload = ErrorBody (lit ''Unexpected end of JSON input'') (lit ''SyntaxError'')\<rparr>,
        products0)"
  by (simp add: thrown_kinds widget_created(1) search_zzz_answer app_unparsed malformed_answer)

section \<open>The statistics route\<close>

lemma no_stats_payload:
  "payload (fst (respond (getProducts e req ps))) \<noteq> Stats s"
  "payload (fst (respond (getProduct e req ps))) \<noteq> Stats s"
  "payload (fst (respond (Next, ps))) \<noteq> Stats s"
  "payload (fst (respond (hello e req ps))) \<noteq> Stats s"
  "payload (fst (respond (Throw err, ps))) \<noteq> Stats s"
  "payload (fst (respond (Send \<lparr>status = 200, payload = Allow\<rparr>, ps))) \<noteq> Stats s"
  by (simp_all add: hello_def getProducts_def getProduct_def respond_def errorHandler_def
      paginate_def Let_def split: sum.splits option.splits)

lemma app_never_stats: "payload (fst (app e req ps)) \<noteq> Stats s"
proof (cases "body req")
  case (Inl err)
  then show ?thesis by (simp add: app_unparsed errorHandler_def)
next
  case (Inr b)
  note body = this
  show ?thesis
  proof (cases "is_create req \<or> is_update req \<or> is_delete req")
    case False
    with body show ?thesis
      by (cases "http_method req")
         (auto simp: app_dispatch dispatch_routes is_create_def is_update_def is_delete_def
            no_stats_payload split: option.splits)
  next
    case True
    note prot = this
    show ?thesis
    proof (cases "id_decodes e req")
      case False
      then obtain s where "item_segment (path req) = Some s" "decodeURIComponent e s = None"
        by (auto simp: id_decodes_def split: option.splits)
      with body show ?thesis by (simp add: app_undecodable errorHandler_def)
    next
      case True
      note dec = this
      show ?thesis
      proof (cases "authenticated e req")
        case False
        with prot body dec show ?thesis by (simp add: app_unauthorized unauthorized_def)
      next
        case True
        note auth = this
        show ?thesis
        proof (cases "\<not> is_delete req \<and> invalid_body b")
          case True
          with prot have "is_create req \<or> is_update req" by blast
          from app_validated [OF this body dec auth, of ps] True show ?thesis
            by (cases "nullish b") (auto simp: errorHandler_def)
        next
          case False
          from prot show ?thesis
          proof (cases rule: protected_cases)
            case create
            with auth False body show ?thesis
              by (simp add: app_create is_create_def is_delete_def)
          next
            case (update s)
            from id_decodesD [OF dec update(2)] obtain i where "item_id e (path req) = Some i"
              by blast
            with update auth False body show ?thesis
              by (simp add: app_update is_delete_def not_found_def)
          next
            case (delete s)
            from id_decodesD [OF dec delete(2)] obtain i where "item_id e (path req) = Some i"
              by blast
            with delete auth body show ?thesis
              by (simp add: app_delete not_found_def)
          qed
        qed
      qed
    qed
  qed
qed

text \<open>
  C1. The file registers \<^verbatim>\<open>/api/products/:id\<close> before \<^verbatim>\<open>/api/products/stats\<close>, so
  \<^verbatim>\<open>GET /api/products/stats\<close> is served by the single-record lookup with the
  identifier \<open>stats\<close>: on the seed records (and on any store without a record of that
  identifier) the answer is 404 \<open>NotFoundError\<close>; when the body parser rejects the
  request's body, the answer is the parser's error. No request at all is answered with
  the statistics, although the statistics function applied to the seed records would
  give what the claim expects.
\<close>

theorem stats_request_is_a_lookup:
  "app e (get_stats\<lparr>headers := h, query := q, body := Inr b\<rparr>) ps =
     (case find (\<lambda>p. id_p p = lit ''stats'') ps of
        None \<Rightarrow>
          (\<lparr>status = 404,
            payload = ErrorBody (lit ''Product not found'') (lit ''NotFoundError'')\<rparr>, ps)
      | Some p \<Rightarrow> (\<lparr>status = 200, payload = Product p\<rparr>, ps))
   \<and> app e (get_stats\<lparr>headers := h, query := q, body := Inl err\<rparr>) ps = (errorHandler err, ps)
   \<and> app e get_stats products0 =
       (\<lparr>status = 404, payload = ErrorBody (lit ''Product not found'') (lit ''NotFoundError'')\<rparr>,
        products0)
   \<and> (\<forall>req ps s. payload (fst (app e req ps)) \<noteq> Stats s)
   \<and> productStats e get_stats products0 =
       (Send \<lparr>status = 200, payload = Stats
          \<lparr>totalProducts = 2,
           categories = [(lit ''Electronics'', 1), (lit ''Furniture'', 1)],
           inStock_count = 2, outOfStock = 0\<rparr>\<rparr>, products0)"
proof -
  have a: "app e (get_stats\<lparr>headers := h, query := q, body := Inr b\<rparr>) ps =
     (case find (\<lambda>p. id_p p = lit ''stats'') ps of
        None \<Rightarrow>
          (\<lparr>status = 404,
            payload = ErrorBody (lit ''Product not found'') (lit ''NotFoundError'')\<rparr>, ps)
      | Some p \<Rightarrow> (\<lparr>status = 200, payload = Product p\<rparr>, ps))" for h q b ps
    by (subst app_item [where i = "lit ''stats''" and b = b])
       (simp_all add: get_stats_def request_to_def sample_paths not_found_def
          split: option.splits)
  have "find (\<lambda>p. id_p p = lit ''stats'') products0 = None"
    by (simp add: products0_def laptop_def desk_chair_def lit_def)
  with a [where h = "[]" and q = "[]" and b = "JObj []" and ps = products0]
  have "app e get_stats products0 =
       (\<lparr>status = 404, payload = ErrorBody (lit ''Product not found'') (lit ''NotFoundError'')\<rparr>,
        products0)"
    by (simp add: get_stats_def request_to_def)
  moreover have "productStats e get_stats products0 =
       (Send \<lparr>status = 200, payload = Stats
          \<lparr>totalProducts = 2,
           categories = [(lit ''Electronics'', 1), (lit ''Furniture'', 1)],
           inStock_count = 2, outOfStock = 0\<rparr>\<rparr>, products0)"
    by (simp add: productStats_def products0_def laptop_def desk_chair_def category_key_def
        object_prototype_keys_def lit_def)
  moreover have "app e (get_stats\<lparr>headers := h, query := q, body := Inl err\<rparr>) ps
      = (errorHandler err, ps)"
    by (rule app_unparsed) simp
  ultimately show ?thesis
    using a app_never_stats by blast
qed

section \<open>Update and create\<close>

text \<open>
  C2. An update of an existing identifier with a valid body stores a record with the old
  identifier, the supplied name and price, the supplied description and category when
  they are truthy and the stored ones otherwise (a supplied empty string counts as
  omitted), and the supplied \<open>inStock\<close> when the field is present and the stored one
  otherwise. Create fills a missing or falsy description with the empty string and a
  missing or falsy category with \<open>Uncategorized\<close>, and a missing \<open>inStock\<close> with
  \<open>true\<close>.
\<close>

theorem update_rebuilds_record:
  assumes "authenticated e req" and "body req = Inr b" and "\<not> invalid_body b"
  shows "(\<forall>i k. http_method req = PUT \<and> item_id e (path req) = Some i
            \<and> k < length ps \<and> id_p (ps ! k) = i \<and> (\<forall>j < k. id_p (ps ! j) \<noteq> i)
          \<longrightarrow> (\<exists>new. app e req ps = (\<lparr>status = 200, payload = Product new\<rparr>, ps[k := new])
                \<and> id_p new = i
                \<and> name new = field b ''name''
                \<and> price new = field b ''price''
                \<and> description new =
                    (if truthy (field b ''description'')
                     then field b ''description'' else description (ps ! k))
                \<and> category new =
                    (if truthy (field b ''category'')
                     then field b ''category'' else category (ps ! k))
                \<and> inStock new =
                    (if field b ''inStock'' \<noteq> JUndefined
                     then field b ''inStock'' else inStock (ps ! k))))
       \<and> (is_create req
          \<longrightarrow> (\<exists>new. app e req ps = (\<lparr>status = 201, payload = Product new\<rparr>, ps @ [new])
                \<and> id_p new = uuidv4 e
                \<and> name new = field b ''name''
                \<and> price new = field b ''price''
                \<and> description new =
                    (if truthy (field b ''description'')
                     then field b ''description'' else JStr [])
                \<and> category new =
                    (if truthy (field b ''category'')
                     then field b ''category'' else JStr (lit ''Uncategorized''))
                \<and> inStock new =
                    (if field b ''inStock'' \<noteq> JUndefined
                     then field b ''inStock'' else JBool True)))"
proof (intro conjI allI impI)
  fix i k
  assume h: "http_method req = PUT \<and> item_id e (path req) = Some i
            \<and> k < length ps \<and> id_p (ps ! k) = i \<and> (\<forall>j < k. id_p (ps ! j) \<noteq> i)"
  then have idx: "findIndex (\<lambda>p. id_p p = i) ps = int k"
    by (intro findIndex_firstI) auto
  from h assms have "app e req ps =
      (\<lparr>status = 200, payload = Product (updated b (ps ! k))\<rparr>, ps[k := updated b (ps ! k)])"
    by (simp add: app_update idx)
  moreover have "id_p (updated b (ps ! k)) = i" using h by (simp add: updated_def)
  ultimately show "\<exists>new. app e req ps = (\<lparr>status = 200, payload = Product new\<rparr>, ps[k := new])
                \<and> id_p new = i
                \<and> name new = field b ''name''
                \<and> price new = field b ''price''
                \<and> description new =
                    (if truthy (field b ''description'')
                     then field b ''description'' else description (ps ! k))
                \<and> category new =
                    (if truthy (field b ''category'')
                     then field b ''category'' else category (ps ! k))
                \<and> inStock new =
                    (if field b ''inStock'' \<noteq> JUndefined
                     then field b ''inStock'' else inStock (ps ! k))"
    by (intro exI [of _ "updated b (ps ! k)"]) (simp add: updated_def js_or_def)
next
  assume "is_create req"
  with assms have "app e req ps =
      (\<lparr>status = 201, payload = Product (newProduct e b)\<rparr>, ps @ [newProduct e b])"
    by (simp add: app_create)
  then show "\<exists>new. app e req ps = (\<lparr>status = 201, payload = Product new\<rparr>, ps @ [new])
                \<and> id_p new = uuidv4 e
                \<and> name new = field b ''name''
                \<and> price new = field b ''price''
                \<and> description new =
                    (if truthy (field b ''description'')
                     then field b ''description'' else JStr [])
                \<and> category new =
                    (if truthy (field b ''category'')
                     then field b ''category'' else JStr (lit ''Uncategorized''))
                \<and> inStock new =
                    (if field b ''inStock'' \<noteq> JUndefined
                     then field b ''inStock'' else JBool True)"
    by (intro exI [of _ "newProduct e b"]) (simp add: newProduct_def js_or_def)
qed

theorem update_rebuilds_record_witness:
  "authenticated env0 (put_1_with laptop_blank)
   \<and> body (put_1_with laptop_blank) = Inr laptop_blank
   \<and> \<not> invalid_body laptop_blank
   \<and> http_method (put_1_with laptop_blank) = PUT
   \<and> item_id env0 (path (put_1_with laptop_blank)) = Some (lit ''1'')
   \<and> id_p (products0 ! 0) = lit ''1''
   \<and> (\<exists>new. app env0 (put_1_with laptop_blank) products0 =
              (\<lparr>status = 200, payload = Product new\<rparr>, products0[0 := new])
            \<and> price new = JNum 5
            \<and> description new = JStr (lit ''High-performance laptop'')
            \<and> category new = JStr (lit ''Electronics''))
   \<and> authenticated env0 (post_with widget)
   \<and> body (post_with widget) = Inr widget
   \<and> \<not> invalid_body widget
   \<and> is_create (post_with widget)
   \<and> (\<exists>new. app env0 (post_with widget) products0 =
              (\<lparr>status = 201, payload = Product new\<rparr>, products0 @ [new])
            \<and> description new = JNum 42
            \<and> category new = JStr (lit ''Uncategorized'')
            \<and> inStock new = JBool True)"
proof -
  have u: "authenticated env0 (put_1_with laptop_blank)"
    "body (put_1_with laptop_blank) = Inr laptop_blank" "\<not> invalid_body laptop_blank"
    and c: "authenticated env0 (post_with widget)" "body (post_with widget) = Inr widget"
      "\<not> invalid_body widget"
    by (simp_all add: sample_requests sample_bodies)
  have first: "http_method (put_1_with laptop_blank) = PUT
      \<and> item_id env0 (path (put_1_with laptop_blank)) = Some (lit ''1'')
      \<and> 0 < length products0 \<and> id_p (products0 ! 0) = lit ''1''
      \<and> (\<forall>j < 0. id_p (products0 ! j) \<noteq> lit ''1'')"
    by (simp add: sample_requests products0_def laptop_def)
  have upd: "\<exists>new. app env0 (put_1_with laptop_blank) products0 =
              (\<lparr>status = 200, payload = Product new\<rparr>, products0[0 := new])
            \<and> price new = JNum 5
            \<and> description new = JStr (lit ''High-performance laptop'')
            \<and> category new = JStr (lit ''Electronics'')"
    using update_rebuilds_record [OF u, of products0, THEN conjunct1, rule_format, OF first]
    by (auto simp: sample_requests laptop_blank_def field_def products0_def laptop_def)
  have cre: "\<exists>new. app env0 (post_with widget) products0 =
              (\<lparr>status = 201, payload = Product new\<rparr>, products0 @ [new])
            \<and> description new = JNum 42
            \<and> category new = JStr (lit ''Uncategorized'')
            \<and> inStock new = JBool True"
    using update_rebuilds_record [OF c, of products0, THEN conjunct2, rule_format]
    by (auto simp: sample_requests widget_def field_def)
  from u c first upd cre show ?thesis
    by (simp add: sample_requests(5))
qed

text \<open>
  The claim as stated fails: an update that supplies an empty
  description does not store it; the record keeps the description it had.
\<close>

theorem update_empty_description_kept:
  "field (req_body (put_1_with laptop_blank)) ''description'' = JStr []
   \<and> status (fst (app env0 (put_1_with laptop_blank) products0)) = 200
   \<and> map description (snd (app env0 (put_1_with laptop_blank) products0)) =
       [JStr (lit ''High-performance laptop''), JStr (lit ''Ergonomic office chair'')]"
proof -
  have "findIndex (\<lambda>p. id_p p = lit ''1'') products0 = 0"
    by (simp add: products0_def laptop_def)
  then show ?thesis
    by (subst (1 2) app_update [where i = "lit ''1''" and b = laptop_blank])
       (simp_all add: sample_requests sample_bodies req_body_def
          updated_def js_or_def products0_def laptop_def desk_chair_def)
qed

section \<open>Pagination\<close>





lemma ceiling_samples:
  "\<lceil>(2 :: rat) / 10\<rceil> = 1" "\<lceil>(1 :: rat) / 5\<rceil> = 1" "\<lceil>(1 :: rat) / 10\<rceil> = 1"
  by (rule ceiling_unique; simp)+






section \<open>Filtering\<close>

lemma filterE_result:
  assumes "filterE P xs = Inr ys"
  shows "ys = filter (\<lambda>x. P x = Inr True) xs" and "\<forall>x \<in> set xs. \<exists>b. P x = Inr b"
  using assms
  by (induction xs arbitrary: ys) (auto split: sum.splits)

lemma filterE_throws: "(\<exists>err. filterE P xs = Inl err) \<longleftrightarrow> (\<exists>x \<in> set xs. \<exists>err. P x = Inl err)"
  by (induction xs) (auto split: sum.splits)

lemma matches_search_throws:
  "(\<exists>err. matches_search e t p = Inl err) \<longleftrightarrow> search_faults e t p"
  by (cases "name p"; cases "description p")
     (auto simp: matches_search_def lower_of_def search_faults_def is_string_def)

lemma matches_search_true:
  assumes "\<not> search_faults e t p"
  shows "matches_search e t p = Inr True \<longleftrightarrow>
    (\<exists>n. name p = JStr n \<and> sublist t (toLowerCase e n))
    \<or> (\<exists>d. description p = JStr d \<and> sublist t (toLowerCase e d))"
  using assms
  by (cases "name p"; cases "description p")
     (auto simp: matches_search_def lower_of_def search_faults_def is_string_def
        includes_str_sublist)

lemma filter_category_filter:
  "filter_category c ps =
     filter (\<lambda>p. plain c \<and> (\<forall>x. c = Some (QStr x) \<and> x \<noteq> [] \<longrightarrow> category p = JStr x)) ps"
proof (cases c)
  case None
  then show ?thesis by (simp add: filter_category_def plain_def)
next
  case (Some q)
  then show ?thesis
    by (cases q) (auto simp: filter_category_def plain_def qtruthy_def strict_eq_def
        intro: filter_cong)
qed

lemma filter_category_set:
  "p \<in> set (filter_category c ps) \<longleftrightarrow>
     p \<in> set ps \<and> plain c \<and> (\<forall>x. c = Some (QStr x) \<and> x \<noteq> [] \<longrightarrow> category p = JStr x)"
  by (simp add: filter_category_filter)

lemma filter_members: "filter (\<lambda>x. x \<in> set (filter Q xs)) xs = filter Q xs"
  by (rule filter_cong) auto

lemma filter_search_cases:
  assumes "filter_search e s xs = Inr result"
  obtains (skipped) "s = None \<or> s = Some (QStr [])" "result = xs"
  | (searched) t where "s = Some (QStr t)" "t \<noteq> []"
      "filterE (matches_search e (toLowerCase e t)) xs = Inr result"
  using assms
  by (auto simp: filter_search_def split: option.splits qval.splits if_splits)

text \<open>
  C8. When filtering completes, the filtered sequence of a list request is the snapshot,
  in its order, restricted to the records that satisfy both conditions: if a non-empty
  category parameter is supplied, it is a string and the record's category is that very
  string; and if a non-empty search parameter is supplied, the lowercased term occurs in
  the lowercased name or in the lowercased description. An empty parameter filters
  nothing, and a category parameter that is an array or an object is equal to no
  category. The lowercasing is the runtime's \<^verbatim>\<open>toLowerCase\<close>, whatever it does outside
  ASCII.
\<close>

theorem filtered_sequence:
  assumes "apply_filters e req ps = Inr result"
  shows "result = filter (\<lambda>p. p \<in> set result) ps
     \<and> (\<forall>p. p \<in> set result \<longleftrightarrow>
           p \<in> set ps
           \<and> plain (map_of (query req) (lit ''category''))
           \<and> (\<forall>c. map_of (query req) (lit ''category'') = Some (QStr c) \<and> c \<noteq> []
                 \<longrightarrow> category p = JStr c)
           \<and> (\<forall>s. map_of (query req) (lit ''search'') = Some (QStr s) \<and> s \<noteq> [] \<longrightarrow>
                 (\<exists>n. name p = JStr n \<and> sublist (toLowerCase e s) (toLowerCase e n))
                 \<or> (\<exists>d. description p = JStr d
                        \<and> sublist (toLowerCase e s) (toLowerCase e d))))
     \<and> (\<forall>pg lmt. is_list req \<and> body_parsed req
            \<and> page_of req = Inr pg \<and> limit_of req = Inr lmt
          \<longrightarrow> app e req ps = (\<lparr>status = 200, payload = paginate pg lmt result\<rparr>, ps))"
proof -
  let ?c = "map_of (query req) (lit ''category'')"
  let ?s = "map_of (query req) (lit ''search'')"
  let ?cat = "\<lambda>p. plain ?c \<and> (\<forall>c. ?c = Some (QStr c) \<and> c \<noteq> [] \<longrightarrow> category p = JStr c)"
  let ?srch = "\<lambda>p. \<forall>s. ?s = Some (QStr s) \<and> s \<noteq> [] \<longrightarrow>
      (\<exists>n. name p = JStr n \<and> sublist (toLowerCase e s) (toLowerCase e n))
      \<or> (\<exists>d. description p = JStr d \<and> sublist (toLowerCase e s) (toLowerCase e d))"
  from assms have fs: "filter_search e ?s (filter_category ?c ps) = Inr result"
    by (simp add: apply_filters_def)
  from fs have res: "result = filter (\<lambda>p. ?cat p \<and> ?srch p) ps"
  proof (cases rule: filter_search_cases)
    case skipped
    then have all: "?srch p" for p by auto
    from skipped have "result = filter_category ?c ps" by simp
    also have "\<dots> = filter ?cat ps"
      by (rule filter_category_filter)
    also have "\<dots> = filter (\<lambda>p. ?cat p \<and> ?srch p) ps"
      by (rule filter_cong) (use all in blast)+
    finally show ?thesis .
  next
    case (searched s)
    let ?t = "toLowerCase e s"
    note r = filterE_result [OF searched(3)]
    have ok: "\<not> search_faults e ?t p" if "p \<in> set (filter_category ?c ps)" for p
      using r(2) that matches_search_throws [of e ?t p] by fastforce
    have "result = filter (\<lambda>p. matches_search e ?t p = Inr True) (filter_category ?c ps)"
      by (rule r(1))
    also have "\<dots> = filter (\<lambda>p. ?srch p) (filter_category ?c ps)"
      by (rule filter_cong) (use ok searched(1,2) in \<open>auto simp: matches_search_true\<close>)
    also have "\<dots> = filter (\<lambda>p. ?cat p \<and> ?srch p) ps"
      by (simp only: filter_category_filter filter_filter conj_commute)
    finally show ?thesis .
  qed
  have "result = filter (\<lambda>p. p \<in> set result) ps"
    by (subst (1 2) res) (simp only: filter_members)
  moreover have "\<forall>p. p \<in> set result \<longleftrightarrow> p \<in> set ps \<and> ?cat p \<and> ?srch p"
    by (subst res) auto
  moreover have "\<forall>pg lmt. is_list req \<and> body_parsed req
        \<and> page_of req = Inr pg \<and> limit_of req = Inr lmt
      \<longrightarrow> app e req ps = (\<lparr>status = 200, payload = paginate pg lmt result\<rparr>, ps)"
    using assms
    by (auto simp: is_list_def body_parsed_def app_list getProducts_def respond_def
        split: sum.splits)
  ultimately show ?thesis by blast
qed

theorem filtered_sequence_witness:
  "apply_filters env0 (list_with [(''category'', ''Furniture''), (''search'', ''CHAIR'')])
     products0 = Inr [desk_chair]
   \<and> is_list (list_with [(''category'', ''Furniture''), (''search'', ''CHAIR'')])
   \<and> body_parsed (list_with [(''category'', ''Furniture''), (''search'', ''CHAIR'')])
   \<and> desk_chair \<in> set products0
   \<and> category desk_chair = JStr (lit ''Furniture'')
   \<and> name desk_chair = JStr (lit ''Desk Chair'')
   \<and> sublist (toLowerCase env0 (lit ''CHAIR'')) (toLowerCase env0 (lit ''Desk Chair''))
   \<and> app env0 (list_with [(''category'', ''Furniture''), (''search'', ''CHAIR'')]) products0 =
       (\<lparr>status = 200, payload = ProductList
          \<lparr>total_n = 1, page = 1, totalPages = 1, data = [desk_chair]\<rparr>\<rparr>, products0)"
proof -
  let ?req = "list_with [(''category'', ''Furniture''), (''search'', ''CHAIR'')]"
  have f: "apply_filters env0 ?req products0 = Inr [desk_chair]"
    by (simp add: apply_filters_def list_samples filter_category_def filter_search_def
        qtruthy_def strict_eq_def products0_def laptop_def desk_chair_def matches_search_def
        lower_of_def lower_samples)
       (simp add: lit_def)
  have n: "page_of ?req = Inr 1" "limit_of ?req = Inr 10"
    by (simp_all add: page_of_def limit_of_def parseInt_param_def list_samples int_or_def)
  have p: "paginate 1 10 [desk_chair] =
      ProductList \<lparr>total_n = 1, page = 1, totalPages = 1, data = [desk_chair]\<rparr>"
    by (simp add: paginate_def safe_int_def slice_def rel_index_def ceil_div_def
        ceiling_samples)
  have s: "sublist (toLowerCase env0 (lit ''CHAIR'')) (toLowerCase env0 (lit ''Desk Chair''))"
    by (simp add: lower_samples includes_str_sublist [symmetric]) (simp add: lit_def)
  have b: "body_parsed ?req"
    by (simp add: body_parsed_def list_samples)
  from filtered_sequence [OF f] f n p s b show ?thesis
    by (simp add: list_samples(1) products0_def desk_chair_def)
qed

text \<open>
  The claim as stated fails for a category parameter that is supplied
  but empty (\<^verbatim>\<open>?category=\<close>): the filter is skipped, and both seed records are in the
  filtered sequence although the category of neither is the empty string. And there is no
  filtered sequence at all when the search filter throws.
\<close>

theorem empty_category_filters_nothing:
  "map_of (query (list_with [(''category'', [])])) (lit ''category'') = Some (QStr [])
   \<and> category laptop = JStr (lit ''Electronics'')
   \<and> category desk_chair = JStr (lit ''Furniture'')
   \<and> apply_filters env0 (list_with [(''category'', [])]) products0 = Inr [laptop, desk_chair]
   \<and> app env0 (list_with [(''category'', [])]) products0 =
       (\<lparr>status = 200, payload = ProductList
          \<lparr>total_n = 2, page = 1, totalPages = 1, data = [laptop, desk_chair]\<rparr>\<rparr>, products0)
   \<and> apply_filters env0 (list_with [(''search'', ''zzz'')])
         (snd (app env0 (post_with widget) products0)) =
       Inl (TypeError ''p.description.toLowerCase is not a function'')"
proof -
  have f: "apply_filters env0 (list_with [(''category'', [])]) products0
      = Inr [laptop, desk_chair]"
    by (simp add: apply_filters_def list_samples filter_category_def filter_search_def
        qtruthy_def products0_def)
  then have "app env0 (list_with [(''category'', [])]) products0 =
       (\<lparr>status = 200, payload = ProductList
          \<lparr>total_n = 2, page = 1, totalPages = 1, data = [laptop, desk_chair]\<rparr>\<rparr>, products0)"
    by (subst app_list [where b = "JObj []"])
       (simp_all add: list_samples getProducts_def respond_def paginate_def page_of_def
          limit_of_def parseInt_param_def int_or_def safe_int_def slice_def rel_index_def
          ceil_div_def ceiling_samples)
  with f show ?thesis
    by (simp add: list_samples(2) laptop_def desk_chair_def widget_created(1)
        search_zzz_throws)
qed

section \<open>Faults of the search filter\<close>

lemma apply_filters_throws_iff:
  assumes "map_of (query req) (lit ''search'') = Some (QStr s)" and "s \<noteq> []"
  shows "(\<exists>err. apply_filters e req ps = Inl err) \<longleftrightarrow>
    (\<exists>p \<in> set (filter_category (map_of (query req) (lit ''category'')) ps).
       search_faults e (toLowerCase e s) p)"
  using assms
  by (simp add: apply_filters_def filter_search_def filterE_throws matches_search_throws)

lemma not_plain_throws:
  assumes "map_of (query req) (lit ''search'') = Some q" and "\<not> plain (Some q)"
  shows "apply_filters e req ps =
    Inl (TypeError ''req.query.search.toLowerCase is not a function'')"
  using assms
  by (cases q) (simp_all add: apply_filters_def filter_search_def plain_def)

lemma strings_never_fault:
  assumes "\<forall>p \<in> set ps. is_string (name p) \<and> is_string (description p)"
    and "plain (map_of (query req) (lit ''search''))"
  shows "\<exists>result. apply_filters e req ps = Inr result"
proof (cases "apply_filters e req ps")
  case (Inr result)
  then show ?thesis by blast
next
  case (Inl err)
  with assms(2) obtain s where s: "map_of (query req) (lit ''search'') = Some (QStr s)"
      "s \<noteq> []"
    by (auto simp: apply_filters_def filter_search_def plain_def
        split: option.splits qval.splits if_splits)
  from Inl apply_filters_throws_iff [OF s, of e ps] obtain p
    where "p \<in> set (filter_category (map_of (query req) (lit ''category'')) ps)"
      and "search_faults e (toLowerCase e s) p"
    by blast
  with assms(1) have False
    by (cases "name p") (auto simp: filter_category_set search_faults_def is_string_def)
  then show ?thesis ..
qed

lemma list_fault_answer:
  assumes "is_list req" and "body_parsed req" and "apply_filters e req ps = Inl err"
  shows "app e req ps =
    (\<lparr>status = 500, payload = ErrorBody (message err) (lit ''TypeError'')\<rparr>, ps)"
proof -
  from assms(2) obtain b where "body req = Inr b"
    by (auto simp: body_parsed_def split: sum.splits)
  with assms(1) have "app e req ps = respond (getProducts e req ps)"
    by (simp add: is_list_def app_list)
  moreover from apply_filters_throws [OF assms(3)] obtain m where "err = TypeError m" ..
  ultimately show ?thesis
    using assms(3) by (simp add: getProducts_def respond_def errorHandler_def thrown_kinds)
qed

text \<open>
  C10. Validation does not look at the description, and create stores a truthy
  description as it is, whatever its type. For a list request with a non-empty search
  string, filtering throws exactly when some record that passes the category filter has a
  name that is not a string, or has a name that does not contain the lowercased term and
  a description that is not a string; a record whose name contains the term is accepted
  without its description being read. A search parameter that is not a string (a
  repeated parameter is an array) makes filtering throw on every store. What filtering
  throws is answered 500 with type \<open>TypeError\<close>. When every name and description in the
  store is a string and the search parameter is absent or a string, filtering never
  throws.
\<close>

theorem search_fault_conditions:
  "(is_create req \<and> authenticated e req \<and> body req = Inr b \<and> \<not> invalid_body b
      \<and> truthy (field b ''description'')
    \<longrightarrow> (\<exists>new. app e req ps = (\<lparr>status = 201, payload = Product new\<rparr>, ps @ [new])
          \<and> description new = field b ''description''))
   \<and> (map_of (query req) (lit ''search'') = Some (QStr s) \<and> s \<noteq> []
    \<longrightarrow> ((\<exists>err. apply_filters e req ps = Inl err)
          \<longleftrightarrow> (\<exists>p \<in> set (filter_category (map_of (query req) (lit ''category'')) ps).
                 search_faults e (toLowerCase e s) p)))
   \<and> (map_of (query req) (lit ''search'') = Some q \<and> \<not> plain (Some q)
    \<longrightarrow> (\<exists>err. apply_filters e req ps = Inl err))
   \<and> (is_list req \<and> body_parsed req \<and> apply_filters e req ps = Inl err
    \<longrightarrow> app e req ps =
          (\<lparr>status = 500, payload = ErrorBody (message err) (lit ''TypeError'')\<rparr>, ps))
   \<and> ((\<forall>p \<in> set ps. is_string (name p) \<and> is_string (description p))
      \<and> plain (map_of (query req) (lit ''search''))
    \<longrightarrow> (\<exists>result. apply_filters e req ps = Inr result))"
proof (intro conjI impI)
  assume "is_create req \<and> authenticated e req \<and> body req = Inr b \<and> \<not> invalid_body b
      \<and> truthy (field b ''description'')"
  then show "\<exists>new. app e req ps = (\<lparr>status = 201, payload = Product new\<rparr>, ps @ [new])
          \<and> description new = field b ''description''"
    by (intro exI [of _ "newProduct e b"]) (simp add: app_create newProduct_def js_or_def)
next
  assume "map_of (query req) (lit ''search'') = Some (QStr s) \<and> s \<noteq> []"
  then show "(\<exists>err. apply_filters e req ps = Inl err)
          \<longleftrightarrow> (\<exists>p \<in> set (filter_category (map_of (query req) (lit ''category'')) ps).
                 search_faults e (toLowerCase e s) p)"
    by (simp add: apply_filters_throws_iff)
next
  assume "map_of (query req) (lit ''search'') = Some q \<and> \<not> plain (Some q)"
  then show "\<exists>err. apply_filters e req ps = Inl err"
    by (simp add: not_plain_throws)
next
  assume "is_list req \<and> body_parsed req \<and> apply_filters e req ps = Inl err"
  then show "app e req ps =
      (\<lparr>status = 500, payload = ErrorBody (message err) (lit ''TypeError'')\<rparr>, ps)"
    by (simp add: list_fault_answer)
next
  assume "(\<forall>p \<in> set ps. is_string (name p) \<and> is_string (description p))
      \<and> plain (map_of (query req) (lit ''search''))"
  then show "\<exists>result. apply_filters e req ps = Inr result"
    by (simp add: strings_never_fault)
qed

theorem search_fault_conditions_witness:
  "is_create (post_with widget) \<and> authenticated env0 (post_with widget)
   \<and> body (post_with widget) = Inr widget \<and> \<not> invalid_body widget
   \<and> field widget ''description'' = JNum 42
   \<and> (\<exists>new. app env0 (post_with widget) products0 =
              (\<lparr>status = 201, payload = Product new\<rparr>, products0 @ [new])
          \<and> description new = JNum 42)
   \<and> is_list (list_with [(''search'', ''zzz'')])
   \<and> body_parsed (list_with [(''search'', ''zzz'')])
   \<and> search_faults env0 (toLowerCase env0 (lit ''zzz'')) (newProduct env0 widget)
   \<and> apply_filters env0 (list_with [(''search'', ''zzz'')]) (products0 @ [newProduct env0 widget])
       = Inl (TypeError ''p.description.toLowerCase is not a function'')
   \<and> app env0 (list_with [(''search'', ''zzz'')]) (products0 @ [newProduct env0 widget]) =
       (\<lparr>status = 500,
         payload = ErrorBody (lit ''p.description.toLowerCase is not a function'')
           (lit ''TypeError'')\<rparr>,
        products0 @ [newProduct env0 widget])
   \<and> \<not> plain (Some (QArr [QStr (lit ''a''), QStr (lit ''b'')]))
   \<and> (\<exists>err. apply_filters env0
         ((list_with [])\<lparr>query := [(lit ''search'', QArr [QStr (lit ''a''), QStr (lit ''b'')])]\<rparr>)
         products0 = Inl err)
   \<and> is_string (name laptop) \<and> is_string (description laptop)
   \<and> is_string (name desk_chair) \<and> is_string (description desk_chair)
   \<and> plain (map_of (query (list_with [(''search'', ''zzz'')])) (lit ''search''))
   \<and> (\<exists>result. apply_filters env0 (list_with [(''search'', ''zzz'')]) products0 = Inr result)"
proof -
  let ?w = "newProduct env0 widget"
  let ?zzz = "list_with [(''search'', ''zzz'')]"
  let ?ab = "(list_with [])\<lparr>query := [(lit ''search'', QArr [QStr (lit ''a''), QStr (lit ''b'')])]\<rparr>"
  let ?err = "TypeError ''p.description.toLowerCase is not a function''"
  note thm1 = search_fault_conditions [where req = "post_with widget" and e = env0
      and ps = products0 and b = widget, THEN conjunct1, rule_format]
  note thm2 = search_fault_conditions [where req = ?zzz and e = env0 and ps = "products0 @ [?w]"
      and s = "lit ''zzz''", THEN conjunct2, THEN conjunct1, rule_format]
  note thm3 = search_fault_conditions [where req = ?ab and e = env0 and ps = products0
      and q = "QArr [QStr (lit ''a''), QStr (lit ''b'')]",
      THEN conjunct2, THEN conjunct2, THEN conjunct1, rule_format]
  note thm4 = search_fault_conditions [where req = ?zzz and e = env0 and ps = "products0 @ [?w]"
      and err = ?err, THEN conjunct2, THEN conjunct2, THEN conjunct2, THEN conjunct1,
      rule_format]
  note thm5 = search_fault_conditions [where req = ?zzz and e = env0 and ps = products0,
      THEN conjunct2, THEN conjunct2, THEN conjunct2, THEN conjunct2]
  have c: "\<exists>new. app env0 (post_with widget) products0 =
              (\<lparr>status = 201, payload = Product new\<rparr>, products0 @ [new])
          \<and> description new = JNum 42"
    using thm1 by (simp add: sample_requests sample_bodies)
  have f: "search_faults env0 (toLowerCase env0 (lit ''zzz'')) ?w"
    by (simp add: search_faults_def widget_created lower_samples is_string_def)
       (simp add: lit_def)
  have z: "is_list ?zzz" "body_parsed ?zzz"
    "map_of (query ?zzz) (lit ''search'') = Some (QStr (lit ''zzz''))"
    "map_of (query ?zzz) (lit ''category'') = None"
    by (simp_all add: list_samples body_parsed_def)
  have "\<exists>p \<in> set (filter_category (map_of (query ?zzz) (lit ''category'')) (products0 @ [?w])).
      search_faults env0 (toLowerCase env0 (lit ''zzz'')) p"
    using f by (simp add: z filter_category_def)
  with thm2 have "\<exists>err. apply_filters env0 ?zzz (products0 @ [?w]) = Inl err"
    by (simp add: z)
  then have t: "apply_filters env0 ?zzz (products0 @ [?w]) = Inl ?err"
    by (simp add: search_zzz_throws)
  from thm4 t have a: "app env0 ?zzz (products0 @ [?w]) =
       (\<lparr>status = 500,
         payload = ErrorBody (lit ''p.description.toLowerCase is not a function'')
           (lit ''TypeError'')\<rparr>, products0 @ [?w])"
    by (simp add: z TypeError_def)
  have np: "\<not> plain (Some (QArr [QStr (lit ''a''), QStr (lit ''b'')]))"
    by (simp add: plain_def)
  with thm3 have ab: "\<exists>err. apply_filters env0 ?ab products0 = Inl err"
    by simp
  have strs: "is_string (name laptop) \<and> is_string (description laptop)
      \<and> is_string (name desk_chair) \<and> is_string (description desk_chair)"
    by (simp add: laptop_def desk_chair_def is_string_def)
  have pl: "plain (map_of (query ?zzz) (lit ''search''))"
    by (simp add: z plain_def)
  with thm5 strs have r: "\<exists>result. apply_filters env0 ?zzz products0 = Inr result"
    by (auto simp: products0_def)
  from c f z(1,2) t a np ab strs pl r show ?thesis
    by (simp add: sample_requests sample_bodies)
qed

text \<open>
  The claim as stated fails in both directions. After the record
  with the numeric description has been created, a search for a term that occurs in its
  name does not fault; it is answered 200 with that record. And on the seed records,
  whose names and descriptions are all strings, a list request with a repeated search
  parameter (\<^verbatim>\<open>?search=a&search=b\<close>) faults and is answered 500.
\<close>

theorem search_matching_name_no_fault:
  "description (newProduct env0 widget) = JNum 42
   \<and> snd (app env0 (post_with widget) products0) = products0 @ [newProduct env0 widget]
   \<and> app env0 (list_with [(''search'', ''widget'')])
         (snd (app env0 (post_with widget) products0)) =
       (\<lparr>status = 200, payload = ProductList
          \<lparr>total_n = 1, page = 1, totalPages = 1, data = [newProduct env0 widget]\<rparr>\<rparr>,
        snd (app env0 (post_with widget) products0))
   \<and> app env0
       ((list_with [])\<lparr>query := [(lit ''search'', QArr [QStr (lit ''a''), QStr (lit ''b'')])]\<rparr>)
       products0 =
       (\<lparr>status = 500,
         payload = ErrorBody (lit ''req.query.search.toLowerCase is not a function'')
           (lit ''TypeError'')\<rparr>,
        products0)"
proof -
  let ?w = "newProduct env0 widget"
  let ?ab = "(list_with [])\<lparr>query := [(lit ''search'', QArr [QStr (lit ''a''), QStr (lit ''b'')])]\<rparr>"
  have "apply_filters env0 (list_with [(''search'', ''widget'')]) (products0 @ [?w]) = Inr [?w]"
    by (simp add: apply_filters_def list_samples filter_category_def filter_search_def
        products0_def laptop_def desk_chair_def widget_created matches_search_def lower_of_def
        lower_samples)
       (simp add: lit_def)
  then have a: "app env0 (list_with [(''search'', ''widget'')]) (products0 @ [?w]) =
       (\<lparr>status = 200, payload = ProductList
          \<lparr>total_n = 1, page = 1, totalPages = 1, data = [?w]\<rparr>\<rparr>, products0 @ [?w])"
    by (subst app_list [where b = "JObj []"])
       (simp_all add: list_samples getProducts_def respond_def paginate_def page_of_def
          limit_of_def parseInt_param_def int_or_def safe_int_def slice_def rel_index_def
          ceil_div_def ceiling_samples)
  have q: "is_list ?ab" "body_parsed ?ab"
    by (simp_all add: is_list_def body_parsed_def list_with_def request_to_def sample_paths)
  have "apply_filters env0 ?ab products0 =
      Inl (TypeError ''req.query.search.toLowerCase is not a function'')"
    by (rule not_plain_throws [where q = "QArr [QStr (lit ''a''), QStr (lit ''b'')]"])
       (simp_all add: plain_def)
  from list_fault_answer [OF q this] have b: "app env0 ?ab products0 =
       (\<lparr>status = 500,
         payload = ErrorBody (lit ''req.query.search.toLowerCase is not a function'')
           (lit ''TypeError'')\<rparr>, products0)"
    by (simp add: TypeError_def)
  from a b show ?thesis
    by (simp add: widget_created)
qed

end
